theory Spec2Isabelle
  imports Complex_Main "HOL-Library.Multiset"
begin

section \<open>Circuit programs\<close>

text \<open>
  The tutorial builds a quantum circuit by calling gate constructors of the quantum
  framework inside a recording context: every call appends one operation to the circuit
  program. The model keeps the program as the list of operations a call has appended,
  together with the value the call returned or the exception it raised. Weights, features
  and probabilities are floating-point numbers in the source and real numbers here, so
  rounding is outside the model. A gate constructor records its arguments; what the
  framework validates inside a constructor is not part of the model, except where it is
  said so below.
\<close>

type_synonym wire = nat

datatype mvalue = MeasurementValue wire

datatype operation =
    U3 real real real wire
  | IsingXX real wire wire
  | IsingYY real wire wire
  | IsingZZ real wire wire
  | MidMeasure wire
  | Conditional mvalue operation
  | AmplitudeEmbedding "real list" "wire list" real
  | ArbitraryUnitary "real list" "wire list"
  | Probs "wire list"

datatype error =
    AssertionError string
  | TypeError
  | IndexError
  | ValueError

text \<open>
  The outcome of a call: the operations it appended, in order, and either the exception
  that ended it (\<open>Inl\<close>) or its return value (\<open>Inr\<close>).
\<close>

type_synonym 'a queued = "operation list \<times> (error + 'a)"

definition returns :: "'a \<Rightarrow> 'a queued" where
  "returns x = ([], Inr x)"

definition raise :: "error \<Rightarrow> 'a queued" where
  "raise e = ([], Inl e)"

definition apply_op :: "operation \<Rightarrow> unit queued" where
  "apply_op g = ([g], Inr ())"

definition bind :: "'a queued \<Rightarrow> ('a \<Rightarrow> 'b queued) \<Rightarrow> 'b queued" where
  "bind m f =
     (case m of
        (ops, Inl e) \<Rightarrow> (ops, Inl e)
      | (ops, Inr x) \<Rightarrow> (case f x of (ops', r) \<Rightarrow> (ops @ ops', r)))"

definition andthen :: "unit queued \<Rightarrow> 'b queued \<Rightarrow> 'b queued" where
  "andthen m k = bind m (\<lambda>_. k)"

text \<open>A \<^verbatim>\<open>for x in xs: body\<close> loop: the first exception ends it.\<close>

fun for_each :: "'a list \<Rightarrow> ('a \<Rightarrow> unit queued) \<Rightarrow> unit queued" where
  "for_each [] body = returns ()"
| "for_each (x # xs) body = andthen (body x) (for_each xs body)"

text \<open>\<^verbatim>\<open>xs[i]\<close> on a Python sequence, for an index that is not negative.\<close>

definition getitem :: "'a list \<Rightarrow> nat \<Rightarrow> 'a queued" where
  "getitem xs i = (if i < length xs then returns (xs ! i) else raise IndexError)"

text \<open>
  \<^verbatim>\<open>qml.U3(*args, wires=w)\<close>: the gate takes exactly three angles, so unpacking a
  sequence of any other length is a \<^verbatim>\<open>TypeError\<close> of the call.
\<close>

definition U3_star :: "real list \<Rightarrow> wire \<Rightarrow> unit queued" where
  "U3_star args w =
     (case args of
        [theta, phi, delta] \<Rightarrow> apply_op (U3 theta phi delta w)
      | _ \<Rightarrow> raise TypeError)"

text \<open>\<^verbatim>\<open>qml.measure(w)\<close> appends the measurement and returns its outcome.\<close>

definition measure_wire :: "wire \<Rightarrow> mvalue queued" where
  "measure_wire w = ([MidMeasure w], Inr (MeasurementValue w))"

text \<open>\<^verbatim>\<open>qml.cond(m, qml.U3)(*args, wires=w)\<close>.\<close>

definition cond_U3_star :: "mvalue \<Rightarrow> real list \<Rightarrow> wire \<Rightarrow> unit queued" where
  "cond_U3_star m args w =
     (case args of
        [theta, phi, delta] \<Rightarrow> apply_op (Conditional m (U3 theta phi delta w))
      | _ \<Rightarrow> raise TypeError)"

section \<open>The convolutional layer\<close>

text \<open>
  The body of the inner loop of \<^verbatim>\<open>convolutional_layer\<close> for the pair that starts at
  index \<open>indx\<close>. The slices \<^verbatim>\<open>weights[:3]\<close>, \<^verbatim>\<open>weights[3:6]\<close>, \<^verbatim>\<open>weights[9:12]\<close> and
  \<^verbatim>\<open>weights[12:]\<close> are \<open>take\<close> and \<open>drop\<close>. The loop's guard \<open>indx < n_wires - 1\<close>
  keeps \<open>wires ! (indx + 1)\<close> inside the list.
\<close>

definition conv_pair :: "real list \<Rightarrow> wire list \<Rightarrow> bool \<Rightarrow> nat \<Rightarrow> wire \<Rightarrow> unit queued" where
  "conv_pair weights wires skip_first_layer indx w =
     andthen
       (if indx mod 2 = 0 \<and> skip_first_layer
        then andthen (U3_star (take 3 weights) w)
                     (U3_star (take 3 (drop 3 weights)) (wires ! (indx + 1)))
        else returns ())
    (andthen (bind (getitem weights 6) (\<lambda>t. apply_op (IsingXX t w (wires ! (indx + 1)))))
    (andthen (bind (getitem weights 7) (\<lambda>t. apply_op (IsingYY t w (wires ! (indx + 1)))))
    (andthen (bind (getitem weights 8) (\<lambda>t. apply_op (IsingZZ t w (wires ! (indx + 1)))))
    (andthen (U3_star (take 3 (drop 9 weights)) w)
             (U3_star (drop 12 weights) (wires ! (indx + 1)))))))"

definition convolutional_layer :: "real list \<Rightarrow> wire list \<Rightarrow> bool \<Rightarrow> unit queued" where
  "convolutional_layer weights wires skip_first_layer =
     (let n_wires = length wires in
      if \<not> n_wires \<ge> 3 then raise (AssertionError ''this circuit is too small!'')
      else
        for_each [0, 1] (\<lambda>p.
          for_each (enumerate 0 wires) (\<lambda>(indx, w).
            if indx mod 2 = p \<and> indx < n_wires - 1
            then conv_pair weights wires skip_first_layer indx w
            else returns ())))"

section \<open>The pooling layer\<close>

definition pooling_layer :: "real list \<Rightarrow> wire list \<Rightarrow> unit queued" where
  "pooling_layer weights wires =
     (let n_wires = length wires in
      if \<not> length wires \<ge> 2 then raise (AssertionError ''this circuit is too small!'')
      else
        for_each (enumerate 0 wires) (\<lambda>(indx, w).
          if indx mod 2 = 1 \<and> indx < n_wires
          then bind (measure_wire w) (\<lambda>m_outcome.
                 cond_U3_star m_outcome weights (wires ! (indx - 1)))
          else returns ()))"

definition conv_and_pooling :: "real list \<Rightarrow> wire list \<Rightarrow> unit queued" where
  "conv_and_pooling kernel_weights n_wires =
     andthen (convolutional_layer (take 15 kernel_weights) n_wires True)
             (pooling_layer (drop 15 kernel_weights) n_wires)"

section \<open>The network\<close>

text \<open>\<^verbatim>\<open>wires[::2]\<close>: every other element, starting with the first.\<close>

fun stride2 :: "'a list \<Rightarrow> 'a list" where
  "stride2 [] = []"
| "stride2 [x] = [x]"
| "stride2 (x # y # xs) = x # stride2 xs"

text \<open>
  Modelled from the spec: \<^verbatim>\<open>qml.ArbitraryUnitary\<close> belongs to the quantum framework and
  is not part of the tutorial's source. The spec says of the dense layer that the weight
  count must equal \<open>4^(len(wires)) - 1\<close> and that any other length is rejected; the
  template is modelled as raising \<^verbatim>\<open>ValueError\<close> then, and as appending the gate
  otherwise.
\<close>

definition arbitrary_unitary :: "real list \<Rightarrow> wire list \<Rightarrow> unit queued" where
  "arbitrary_unitary weights wires =
     (if length weights \<noteq> 4 ^ length wires - 1 then raise ValueError
      else apply_op (ArbitraryUnitary weights wires))"

definition dense_layer :: "real list \<Rightarrow> wire list \<Rightarrow> unit queued" where
  "dense_layer weights wires = arbitrary_unitary weights wires"

definition num_wires :: nat where
  "num_wires = 6"

text \<open>Decimal digits of a number, for the formatted message of the assertion.\<close>

function show_nat :: "nat \<Rightarrow> string" where
  "show_nat n =
     (if n < 10 then [''0123456789'' ! n]
      else show_nat (n div 10) @ [''0123456789'' ! (n mod 10)])"
  by pat_completeness auto
termination
  by (relation "measure id") auto

definition size_message :: "nat \<Rightarrow> nat \<Rightarrow> string" where
  "size_message expected given =
     ''The size of the last layer weights vector is incorrect! '' @ [CHR 0x0A] @
     '' Expected '' @ show_nat expected @ '', Given '' @ show_nat given"

text \<open>
  The weight tensor has one column per round. The source reads it only through
  \<^verbatim>\<open>weights.shape[1]\<close> and \<^verbatim>\<open>weights[:, j]\<close>, so it is kept as the list of its columns.
\<close>

type_synonym tensor = "real list list"

definition shape1 :: "tensor \<Rightarrow> nat" where
  "shape1 weights = length weights"

definition column :: "tensor \<Rightarrow> nat \<Rightarrow> real list" where
  "column weights j = weights ! j"

text \<open>
  The loop \<^verbatim>\<open>for j in range(layers)\<close> of \<^verbatim>\<open>conv_net\<close>, which rebinds \<^verbatim>\<open>wires\<close> in
  every round; it returns the wires that remain.
\<close>

fun conv_rounds :: "tensor \<Rightarrow> nat list \<Rightarrow> wire list \<Rightarrow> wire list queued" where
  "conv_rounds weights [] wires = returns wires"
| "conv_rounds weights (j # js) wires =
     andthen (conv_and_pooling (column weights j) wires)
             (conv_rounds weights js (stride2 wires))"

text \<open>
  The quantum function \<^verbatim>\<open>conv_net\<close> as written, before the decorator: the program it
  records. The measurement it returns is the last entry of the program.
\<close>

definition conv_net_qfunc :: "tensor \<Rightarrow> real list \<Rightarrow> real list \<Rightarrow> unit queued" where
  "conv_net_qfunc weights last_layer_weights features =
     (let layers = shape1 weights;
          wires = [0..<num_wires]
      in andthen (apply_op (AmplitudeEmbedding features wires (1 / 2)))
        (bind (conv_rounds weights [0..<layers] wires) (\<lambda>wires.
           if \<not> length last_layer_weights = 4 ^ length wires - 1
           then raise (AssertionError
                  (size_message (4 ^ length wires - 1) (length last_layer_weights)))
           else andthen (dense_layer last_layer_weights wires)
                        (apply_op (Probs [0])))))"

text \<open>
  The decorated \<^verbatim>\<open>conv_net\<close>: the device runs the recorded program and gives the
  probabilities of the outcomes; an exception raised while recording is the call's
  exception, and nothing is run. The device is a parameter of the model.
\<close>

definition conv_net ::
  "(operation list \<Rightarrow> real list) \<Rightarrow> tensor \<Rightarrow> real list \<Rightarrow> real list \<Rightarrow> error + real list" where
  "conv_net device weights last_layer_weights features =
     (case conv_net_qfunc weights last_layer_weights features of
        (ops, Inl e) \<Rightarrow> Inl e
      | (ops, Inr _) \<Rightarrow> Inr (device ops))"

section \<open>Cost and accuracy\<close>

text \<open>
  A floating-point result without its rounding: a number, an infinity, or not-a-number.
  Dividing by a zero length does not raise in the array library; it gives \<open>NaN\<close> for
  \<open>0 / 0\<close> and an infinity otherwise.
\<close>

datatype fl = Num real | PosInf | NegInf | NaN

definition fdiv :: "real \<Rightarrow> nat \<Rightarrow> fl" where
  "fdiv x n =
     (if n = 0 then (if x = 0 then NaN else if 0 < x then PosInf else NegInf)
      else Num (x / real n))"

fun one_minus :: "fl \<Rightarrow> fl" where
  "one_minus (Num r) = Num (1 - r)"
| "one_minus PosInf = NegInf"
| "one_minus NegInf = PosInf"
| "one_minus NaN = NaN"

text \<open>
  The \<^verbatim>\<open>lambda\<close> of \<^verbatim>\<open>compute_out\<close>: the entry of the network's probability vector at
  the label. Labels are class indices and not negative. Under \<^verbatim>\<open>jax.vmap\<close> the label is a
  traced index: an index beyond the end is clamped to the last entry and nothing is
  raised. The probabilities of one wire are two numbers; a vector without entries does
  not come from the device, and the model makes it an error so that the index is defined.
\<close>

definition cost ::
  "(operation list \<Rightarrow> real list) \<Rightarrow> tensor \<Rightarrow> real list \<Rightarrow> real list \<Rightarrow> nat \<Rightarrow> error + real" where
  "cost device weights weights_last feature label =
     (case conv_net device weights weights_last feature of
        Inl e \<Rightarrow> Inl e
      | Inr probs \<Rightarrow>
          if probs = [] then Inl IndexError
          else Inr (probs ! min label (length probs - 1)))"

text \<open>The results of a list of calls, in order; the first exception is the exception.\<close>

fun collect :: "(error + 'a) list \<Rightarrow> error + 'a list" where
  "collect [] = Inr []"
| "collect (r # rs) =
     (case r of
        Inl e \<Rightarrow> Inl e
      | Inr x \<Rightarrow> (case collect rs of Inl e \<Rightarrow> Inl e | Inr xs \<Rightarrow> Inr (x # xs)))"

text \<open>
  \<^verbatim>\<open>jax.vmap(f, in_axes=(None, None, 0, 0))\<close> applied to two batches: one call of \<open>f\<close> per
  sample, results in the order of the samples. Batches of different sizes are a
  \<^verbatim>\<open>ValueError\<close>. The samples are evaluated one after the other here.
\<close>

definition vmap :: "('a \<Rightarrow> 'b \<Rightarrow> error + 'c) \<Rightarrow> 'a list \<Rightarrow> 'b list \<Rightarrow> error + 'c list" where
  "vmap f xs ys =
     (if length xs \<noteq> length ys then Inl ValueError
      else collect (map (\<lambda>(x, y). f x y) (zip xs ys)))"

definition compute_out ::
  "(operation list \<Rightarrow> real list) \<Rightarrow> tensor \<Rightarrow> real list \<Rightarrow> real list list \<Rightarrow> nat list
     \<Rightarrow> error + real list" where
  "compute_out device weights weights_last features labels =
     vmap (cost device weights weights_last) features labels"

definition compute_accuracy ::
  "(operation list \<Rightarrow> real list) \<Rightarrow> tensor \<Rightarrow> real list \<Rightarrow> real list list \<Rightarrow> nat list
     \<Rightarrow> error + fl" where
  "compute_accuracy device weights weights_last features labels =
     (case compute_out device weights weights_last features labels of
        Inl e \<Rightarrow> Inl e
      | Inr out \<Rightarrow> Inr (fdiv (real (length (filter (\<lambda>p. p > 1 / 2) out))) (length out)))"

definition compute_cost ::
  "(operation list \<Rightarrow> real list) \<Rightarrow> tensor \<Rightarrow> real list \<Rightarrow> real list list \<Rightarrow> nat list
     \<Rightarrow> error + fl" where
  "compute_cost device weights weights_last features labels =
     (case compute_out device weights weights_last features labels of
        Inl e \<Rightarrow> Inl e
      | Inr out \<Rightarrow> Inr (one_minus (fdiv (sum_list out) (length labels))))"

section \<open>The training loop\<close>

text \<open>
  What \<^verbatim>\<open>train_qcnn\<close> takes from outside the tutorial's own code is a parameter of the
  model: the device, the data set that \<^verbatim>\<open>load_digits_data\<close> draws, the random initial
  weights, and the optimizer with its state and its update rule.
\<close>

type_synonym params = "tensor \<times> real list"

type_synonym 'o update = "'o \<Rightarrow> (params \<Rightarrow> error + fl) \<Rightarrow> params \<Rightarrow> params \<times> 'o"

record 'o collaborators =
  device :: "operation list \<Rightarrow> real list"
  x_train :: "real list list"
  y_train :: "nat list"
  x_test :: "real list list"
  y_test :: "nat list"
  init_weights :: params
  optimizer :: 'o
  update :: "'o update"

text \<open>
  Modelled from the spec: \<^verbatim>\<open>step_and_cost\<close> belongs to the optimizer of the quantum
  framework and is not part of the tutorial's source. The spec says of the optimizer:
  given a cost function, current weight tensors, and batch data, it returns updated
  weight tensors and the cost value at the prior point. The update rule is a parameter.
\<close>

definition step_and_cost ::
  "'o update \<Rightarrow> 'o \<Rightarrow> (params \<Rightarrow> error + fl) \<Rightarrow> params \<Rightarrow> error + ((params \<times> 'o) \<times> fl)" where
  "step_and_cost upd opt objective p =
     (case objective p of
        Inl e \<Rightarrow> Inl e
      | Inr forward \<Rightarrow> Inr (upd opt objective p, forward))"

record 'o train_state =
  weights :: tensor
  weights_last :: "real list"
  opt_state :: 'o
  train_cost_epochs :: "fl list"
  test_cost_epochs :: "fl list"
  train_acc_epochs :: "fl list"
  test_acc_epochs :: "fl list"

text \<open>The objective handed to the optimizer: the cost on the training batch.\<close>

definition objective :: "'o collaborators \<Rightarrow> params \<Rightarrow> error + fl" where
  "objective c = (\<lambda>(w, wl). compute_cost (device c) w wl (x_train c) (y_train c))"

text \<open>The body of the loop \<^verbatim>\<open>for step in pbar\<close>; the progress bar is left out.\<close>

definition epoch :: "'o collaborators \<Rightarrow> 'o train_state \<Rightarrow> error + 'o train_state" where
  "epoch c s =
     (case step_and_cost (update c) (opt_state s) (objective c) (weights s, weights_last s) of
        Inl e \<Rightarrow> Inl e
      | Inr (((w, wl), opt), train_cost) \<Rightarrow>
     (case compute_accuracy (device c) w wl (x_train c) (y_train c) of
        Inl e \<Rightarrow> Inl e
      | Inr train_acc \<Rightarrow>
     (case compute_cost (device c) w wl (x_test c) (y_test c) of
        Inl e \<Rightarrow> Inl e
      | Inr test_cost \<Rightarrow>
     (case compute_accuracy (device c) w wl (x_test c) (y_test c) of
        Inl e \<Rightarrow> Inl e
      | Inr test_acc \<Rightarrow>
        Inr \<lparr>weights = w, weights_last = wl, opt_state = opt,
             train_cost_epochs = train_cost_epochs s @ [train_cost],
             test_cost_epochs = test_cost_epochs s @ [test_cost],
             train_acc_epochs = train_acc_epochs s @ [train_acc],
             test_acc_epochs = test_acc_epochs s @ [test_acc]\<rparr>))))"

fun train_loop :: "'o collaborators \<Rightarrow> nat list \<Rightarrow> 'o train_state \<Rightarrow> error + 'o train_state" where
  "train_loop c [] s = Inr s"
| "train_loop c (step # pbar) s =
     (case epoch c s of Inl e \<Rightarrow> Inl e | Inr s' \<Rightarrow> train_loop c pbar s')"

record results =
  n_train :: "nat list"
  step :: "nat list"
  train_cost :: "fl list"
  train_acc :: "fl list"
  test_cost :: "fl list"
  test_acc :: "fl list"

definition initial_state :: "'o collaborators \<Rightarrow> 'o train_state" where
  "initial_state c =
     \<lparr>weights = fst (init_weights c), weights_last = snd (init_weights c),
      opt_state = optimizer c,
      train_cost_epochs = [], test_cost_epochs = [],
      train_acc_epochs = [], test_acc_epochs = []\<rparr>"

definition train_qcnn :: "'o collaborators \<Rightarrow> nat \<Rightarrow> nat \<Rightarrow> error + results" where
  "train_qcnn c n_train' n_epochs =
     (case train_loop c [0..<n_epochs] (initial_state c) of
        Inl e \<Rightarrow> Inl e
      | Inr s \<Rightarrow>
          Inr \<lparr>n_train = replicate n_epochs n_train',
               step = [1..<n_epochs + 1],
               train_cost = train_cost_epochs s,
               train_acc = train_acc_epochs s,
               test_cost = test_cost_epochs s,
               test_acc = test_acc_epochs s\<rparr>)"

section \<open>Closed forms of the recorded programs\<close>

text \<open>
  What the layers append, written as plain lists; the properties below show that the
  code above records exactly these.
\<close>

definition pair_ops :: "real list \<Rightarrow> wire list \<Rightarrow> bool \<Rightarrow> nat \<Rightarrow> operation list" where
  "pair_ops W wires extra i =
     (if extra
      then [U3 (W ! 0) (W ! 1) (W ! 2) (wires ! i),
            U3 (W ! 3) (W ! 4) (W ! 5) (wires ! (i + 1))]
      else []) @
     [IsingXX (W ! 6) (wires ! i) (wires ! (i + 1)),
      IsingYY (W ! 7) (wires ! i) (wires ! (i + 1)),
      IsingZZ (W ! 8) (wires ! i) (wires ! (i + 1)),
      U3 (W ! 9) (W ! 10) (W ! 11) (wires ! i),
      U3 (W ! 12) (W ! 13) (W ! 14) (wires ! (i + 1))]"

definition conv_ops :: "real list \<Rightarrow> wire list \<Rightarrow> bool \<Rightarrow> operation list" where
  "conv_ops W wires extra =
     concat (map (pair_ops W wires extra) (filter (\<lambda>i. i mod 2 = 0) [0..<length wires - 1])) @
     concat (map (pair_ops W wires False) (filter (\<lambda>i. i mod 2 = 1) [0..<length wires - 1]))"

definition pool_ops :: "real list \<Rightarrow> wire list \<Rightarrow> operation list" where
  "pool_ops W wires =
     concat (map (\<lambda>i. [MidMeasure (wires ! i),
                       Conditional (MeasurementValue (wires ! i))
                         (U3 (W ! 0) (W ! 1) (W ! 2) (wires ! (i - 1)))])
       (filter (\<lambda>i. i mod 2 = 1) [0..<length wires]))"

text \<open>The wires that are active in round \<open>j\<close>, and after the last round.\<close>

definition active_wires :: "nat \<Rightarrow> wire list" where
  "active_wires j = (stride2 ^^ j) [0..<num_wires]"

text \<open>
  One round on the wires \<open>ws\<close> with the column \<open>col\<close>: the first 15 entries go to the
  convolution, the rest to the pooling. All rounds of a tensor, round \<open>j\<close> on the wires
  active then.
\<close>

definition round_ops :: "real list \<Rightarrow> wire list \<Rightarrow> operation list" where
  "round_ops col ws = conv_ops (take 15 col) ws True @ pool_ops (drop 15 col) ws"

definition rounds_ops :: "tensor \<Rightarrow> operation list" where
  "rounds_ops W = concat (map (\<lambda>j. round_ops (W ! j) (active_wires j)) [0..<length W])"

definition net_ops :: "tensor \<Rightarrow> real list \<Rightarrow> real list \<Rightarrow> operation list" where
  "net_ops W WL features =
     AmplitudeEmbedding features [0..<num_wires] (1 / 2) # rounds_ops W @
     [ArbitraryUnitary WL (active_wires (length W)), Probs [0]]"

text \<open>
  Weights of a shape the network accepts: at most two rounds on six wires, 18 entries
  per column, and a last layer that fits the wires left.
\<close>

definition valid_weights :: "tensor \<Rightarrow> real list \<Rightarrow> bool" where
  "valid_weights W WL \<longleftrightarrow>
     length W \<le> 2 \<and> (\<forall>col \<in> set W. length col = 18) \<and>
     length WL = 4 ^ length (active_wires (length W)) - 1"

text \<open>
  The probability that the network's program gives to the label of sample \<open>i\<close> of a
  batch.
\<close>

definition selected ::
  "(operation list \<Rightarrow> real list) \<Rightarrow> tensor \<Rightarrow> real list \<Rightarrow> real list list \<Rightarrow> nat list
     \<Rightarrow> nat \<Rightarrow> real" where
  "selected dev W WL X Y i = dev (net_ops W WL (X ! i)) ! (Y ! i)"

text \<open>
  The weights and the optimizer state after \<open>k\<close> updates, each update being one step of
  the optimizer's rule on the cost of the training batch.
\<close>

fun params_at :: "'o collaborators \<Rightarrow> nat \<Rightarrow> params \<times> 'o" where
  "params_at c 0 = (init_weights c, optimizer c)"
| "params_at c (Suc k) =
     update c (snd (params_at c k))
       (\<lambda>(w, wl). compute_cost (device c) w wl (x_train c) (y_train c))
       (fst (params_at c k))"

text \<open>The wires a program measures in mid-circuit, in the order of the program.\<close>

fun measured_wire :: "operation \<Rightarrow> wire list" where
  "measured_wire (MidMeasure w) = [w]"
| "measured_wire _ = []"

definition measured :: "operation list \<Rightarrow> wire list" where
  "measured ops = concat (map measured_wire ops)"

text \<open>The two weight tensors after \<open>k\<close> updates.\<close>

definition weights_at :: "'o collaborators \<Rightarrow> nat \<Rightarrow> tensor" where
  "weights_at c k = fst (fst (params_at c k))"

definition last_at :: "'o collaborators \<Rightarrow> nat \<Rightarrow> real list" where
  "last_at c k = snd (fst (params_at c k))"

section \<open>Example inputs\<close>

text \<open>
  A device for the examples: it gives the first feature of the embedding as the
  probability of outcome 0.
\<close>

definition example_device :: "operation list \<Rightarrow> real list" where
  "example_device ops =
     (case ops of
        AmplitudeEmbedding (a # _) _ _ # _ \<Rightarrow> [a, 1 - a]
      | _ \<Rightarrow> [1 / 2, 1 / 2])"

text \<open>
  An update rule for the examples: it adds one to every weight and counts the updates in
  the optimizer's state.
\<close>

definition example_update :: "nat update" where
  "example_update opt f p =
     (case p of (w, wl) \<Rightarrow> ((map (map (\<lambda>x. x + 1)) w, map (\<lambda>x. x + 1) wl), Suc opt))"

text \<open>
  A device for the examples of the training loop, whose answer depends on the weights: it
  divides the first feature by the first angle of the first rotation.
\<close>

definition weighted_device :: "operation list \<Rightarrow> real list" where
  "weighted_device ops =
     (case ops of
        AmplitudeEmbedding (a # _) _ _ # U3 t _ _ _ # _ \<Rightarrow> [a / t, 1 - a / t]
      | _ \<Rightarrow> [1 / 2, 1 / 2])"

definition example_run :: "nat collaborators" where
  "example_run =
     \<lparr>device = weighted_device,
      x_train = [[1 / 4], [3 / 4]], y_train = [0, 1],
      x_test = [[1 / 2]], y_test = [0],
      init_weights = ([replicate 18 1, replicate 18 2], replicate 15 3),
      optimizer = 0,
      update = example_update\<rparr>"

text \<open>
  A second update rule, which moves every weight by the value of the objective at the
  current weights, and the example run with this rule.
\<close>

definition cost_update :: "nat update" where
  "cost_update opt f p =
     (case p of (w, wl) \<Rightarrow>
        (case f p of
           Inr (Num v) \<Rightarrow> ((map (map (\<lambda>x. x + v)) w, map (\<lambda>x. x + v) wl), Suc opt)
         | _ \<Rightarrow> ((w, wl), Suc opt)))"

definition example_run_cost :: "nat collaborators" where
  "example_run_cost = example_run\<lparr>update := cost_update\<rparr>"

section \<open>Sequencing and loops\<close>

text \<open>
  A layer whose statements all succeed appends the concatenation of what they append.
\<close>

lemma andthen_ok: "andthen (g, Inr ()) (h, r) = (g @ h, r)"
  by (simp add: andthen_def bind_def)

lemma bind_ok: "bind (g, Inr x) f = (g @ fst (f x), snd (f x))"
  by (simp add: bind_def split: prod.splits)

lemma for_each_ok:
  "(\<And>x. x \<in> set xs \<Longrightarrow> body x = (g x, Inr ())) \<Longrightarrow>
   for_each xs body = (concat (map g xs), Inr ())"
  by (induction xs) (simp_all add: returns_def andthen_ok)

lemma concat_map_if:
  "concat (map (\<lambda>x. if P x then f x else []) xs) = concat (map f (filter P xs))"
  by (induction xs) simp_all

lemma conv_pair_ops:
  assumes "length W = 15"
  shows "conv_pair W wires skip i (wires ! i) = (pair_ops W wires (i mod 2 = 0 \<and> skip) i, Inr ())"
proof -
  from assms obtain a0 a1 a2 a3 a4 a5 a6 a7 a8 a9 a10 a11 a12 a13 a14
    where W: "W = [a0, a1, a2, a3, a4, a5, a6, a7, a8, a9, a10, a11, a12, a13, a14]"
    by (auto simp: numeral_eq_Suc length_Suc_conv)
  show ?thesis
    unfolding W
    by (simp add: conv_pair_def pair_ops_def U3_star_def getitem_def returns_def
        apply_op_def andthen_ok bind_ok)
qed

lemma for_each_enumerate:
  assumes "\<And>i. i < length xs \<Longrightarrow> body (i, xs ! i) = (g i, Inr ())"
  shows "for_each (enumerate 0 xs) body = (concat (map g [0..<length xs]), Inr ())"
proof -
  have r: "for_each (enumerate 0 xs) body = (concat (map (\<lambda>x. g (fst x)) (enumerate 0 xs)), Inr ())"
  proof (rule for_each_ok)
    fix x assume "x \<in> set (enumerate 0 xs)"
    then have "fst x < length xs" "snd x = xs ! fst x"
      by (auto simp: in_set_enumerate_eq)
    then show "body x = (g (fst x), Inr ())"
      using assms [of "fst x"] by (cases x) simp
  qed
  have a: "map (\<lambda>x. g (fst x)) (enumerate 0 xs) = map g [0..<length xs]"
    using map_map [of g fst "enumerate 0 xs", symmetric] by (simp add: comp_def)
  show ?thesis by (simp only: r a)
qed

lemma filter_upt_last:
  "filter (\<lambda>i. P i \<and> i < n - 1) [0..<n] = filter P [0..<n - 1]"
proof (cases n)
  case 0
  then show ?thesis by simp
next
  case (Suc m)
  have "filter (\<lambda>i. P i \<and> i < m) [0..<m] = filter P [0..<m]"
    by (rule filter_cong) simp_all
  with Suc show ?thesis by simp
qed

lemma conv_sweep_ops:
  assumes "length W = 15"
  shows "for_each (enumerate 0 wires) (\<lambda>(indx, w).
            if indx mod 2 = p \<and> indx < length wires - 1
            then conv_pair W wires skip indx w
            else returns ()) =
         (concat (map (pair_ops W wires (p = 0 \<and> skip))
            (filter (\<lambda>i. i mod 2 = p) [0..<length wires - 1])), Inr ())"
proof -
  let ?g = "\<lambda>i. if i mod 2 = p \<and> i < length wires - 1
                 then pair_ops W wires (p = 0 \<and> skip) i else []"
  have "for_each (enumerate 0 wires) (\<lambda>(indx, w).
            if indx mod 2 = p \<and> indx < length wires - 1
            then conv_pair W wires skip indx w
            else returns ()) = (concat (map ?g [0..<length wires]), Inr ())"
    by (rule for_each_enumerate) (auto simp: conv_pair_ops [OF assms] returns_def)
  also have "concat (map ?g [0..<length wires]) =
      concat (map (pair_ops W wires (p = 0 \<and> skip))
        (filter (\<lambda>i. i mod 2 = p \<and> i < length wires - 1) [0..<length wires]))"
    by (rule concat_map_if)
  finally show ?thesis by (simp only: filter_upt_last)
qed

lemma convolutional_layer_ops:
  assumes "length W = 15" and "3 \<le> length wires"
  shows "convolutional_layer W wires skip = (conv_ops W wires skip, Inr ())"
proof -
  have "convolutional_layer W wires skip =
      andthen (for_each (enumerate 0 wires) (\<lambda>(indx, w).
            if indx mod 2 = 0 \<and> indx < length wires - 1
            then conv_pair W wires skip indx w
            else returns ()))
        (andthen (for_each (enumerate 0 wires) (\<lambda>(indx, w).
            if indx mod 2 = 1 \<and> indx < length wires - 1
            then conv_pair W wires skip indx w
            else returns ())) (returns ()))"
    using assms(2) by (simp add: convolutional_layer_def Let_def)
  also have "\<dots> = (conv_ops W wires skip, Inr ())"
    by (simp only: conv_sweep_ops [OF assms(1)]) (simp add: andthen_ok returns_def conv_ops_def)
  finally show ?thesis .
qed

lemma pooling_layer_ops:
  assumes "length W = 3" and "2 \<le> length wires"
  shows "pooling_layer W wires = (pool_ops W wires, Inr ())"
proof -
  from assms(1) obtain a b c where W: "W = [a, b, c]"
    by (auto simp: numeral_eq_Suc length_Suc_conv)
  let ?g = "\<lambda>i. if i mod 2 = 1 \<and> i < length wires
                 then [MidMeasure (wires ! i),
                       Conditional (MeasurementValue (wires ! i))
                         (U3 (W ! 0) (W ! 1) (W ! 2) (wires ! (i - 1)))] else []"
  have "for_each (enumerate 0 wires) (\<lambda>(indx, w).
          if indx mod 2 = 1 \<and> indx < length wires
          then bind (measure_wire w) (\<lambda>m_outcome.
                 cond_U3_star m_outcome W (wires ! (indx - 1)))
          else returns ()) = (concat (map ?g [0..<length wires]), Inr ())"
    by (rule for_each_enumerate)
       (auto simp: W measure_wire_def cond_U3_star_def bind_ok apply_op_def returns_def)
  also have "concat (map ?g [0..<length wires]) = pool_ops W wires"
  proof -
    have "filter (\<lambda>i. i mod 2 = 1 \<and> i < length wires) [0..<length wires] =
        filter (\<lambda>i. i mod 2 = 1) [0..<length wires]"
      by (rule filter_cong) simp_all
    then show ?thesis
      unfolding pool_ops_def by (simp only: concat_map_if)
  qed
  finally show ?thesis
    using assms(2) by (simp add: pooling_layer_def Let_def)
qed

section \<open>Preconditions of the layers\<close>

text \<open>
  Claim C5. \<^verbatim>\<open>convolutional_layer\<close> ends with the assertion error for every wire list
  shorter than three, and \<^verbatim>\<open>pooling_layer\<close> for every wire list shorter than two, in
  both cases with nothing appended to the program, whatever the weights are. For wire
  lists that meet the bounds, and weight blocks of the lengths the layers are written
  for (15 and 3), neither raises.
\<close>

theorem layers_check_wire_count:
  "(length wires < 3 \<longrightarrow>
      convolutional_layer W wires skip = ([], Inl (AssertionError ''this circuit is too small!''))) \<and>
   (length wires < 2 \<longrightarrow>
      pooling_layer P wires = ([], Inl (AssertionError ''this circuit is too small!''))) \<and>
   (3 \<le> length wires \<and> length W = 15 \<longrightarrow> snd (convolutional_layer W wires skip) = Inr ()) \<and>
   (2 \<le> length wires \<and> length P = 3 \<longrightarrow> snd (pooling_layer P wires) = Inr ())"
  by (simp add: convolutional_layer_ops pooling_layer_ops)
     (simp add: convolutional_layer_def pooling_layer_def raise_def Let_def)

theorem layers_check_wire_count_witness:
  "convolutional_layer (replicate 15 0) [0] True =
     ([], Inl (AssertionError ''this circuit is too small!'')) \<and>
   pooling_layer [0, 0, 0] [0] =
     ([], Inl (AssertionError ''this circuit is too small!'')) \<and>
   snd (convolutional_layer (replicate 15 0) [0, 1, 2] True) = Inr () \<and>
   snd (pooling_layer [0, 0, 0] [0, 1, 2]) = Inr ()"
  using layers_check_wire_count [of "[0]" "replicate 15 0" True "[0, 0, 0]"]
    layers_check_wire_count [of "[0, 1, 2]" "replicate 15 0" True "[0, 0, 0]"]
  by simp

section \<open>The convolutional layer's program\<close>

text \<open>
  Claim C1. The flag is called \<^verbatim>\<open>skip_first_layer\<close>, and the claim has the two extra
  rotations of the first sweep appended exactly when the flag is false. The code tests
  \<^verbatim>\<open>indx % 2 == 0 and skip_first_layer\<close>: on three wires and the weights 0 to 14 it
  appends the two extra rotations on the pair (0, 1) when the flag is true, and leaves
  them out when the flag is false. The three interactions and the two closing rotations
  are appended on both pairs either way.
\<close>

theorem convolutional_layer_skip_flag:
  "convolutional_layer [0, 1, 2, 3, 4, 5, 6, 7, 8, 9, 10, 11, 12, 13, 14] [0, 1, 2] True =
     ([U3 0 1 2 0, U3 3 4 5 1,
       IsingXX 6 0 1, IsingYY 7 0 1, IsingZZ 8 0 1, U3 9 10 11 0, U3 12 13 14 1,
       IsingXX 6 1 2, IsingYY 7 1 2, IsingZZ 8 1 2, U3 9 10 11 1, U3 12 13 14 2], Inr ()) \<and>
   convolutional_layer [0, 1, 2, 3, 4, 5, 6, 7, 8, 9, 10, 11, 12, 13, 14] [0, 1, 2] False =
     ([IsingXX 6 0 1, IsingYY 7 0 1, IsingZZ 8 0 1, U3 9 10 11 0, U3 12 13 14 1,
       IsingXX 6 1 2, IsingYY 7 1 2, IsingZZ 8 1 2, U3 9 10 11 1, U3 12 13 14 2], Inr ())"
  by (simp add: convolutional_layer_def conv_pair_def U3_star_def getitem_def returns_def
      apply_op_def andthen_ok bind_ok)

section \<open>The pooling layer's program\<close>

lemma odd_indices: "filter (\<lambda>i. i mod 2 = 1) [0..<n] = map (\<lambda>k. 2 * k + 1) [0..<n div 2]"
proof (induction n)
  case 0
  then show ?case by simp
next
  case (Suc n)
  show ?case
  proof (cases "n mod 2 = 1")
    case True
    then have "Suc n div 2 = Suc (n div 2)" "2 * (n div 2) + 1 = n" by presburger+
    with True Suc show ?thesis by simp
  next
    case False
    then have "Suc n div 2 = n div 2" by presburger
    with False Suc show ?thesis by simp
  qed
qed

lemma stride2_nth: "stride2 xs = map (\<lambda>k. xs ! (2 * k)) [0..<(length xs + 1) div 2]"
proof (induction xs rule: stride2.induct)
  case 1
  then show ?case by simp
next
  case (2 x)
  then show ?case by simp
next
  case (3 x y xs)
  have "map (\<lambda>k. (x # y # xs) ! (2 * k)) [0..<Suc ((length xs + 1) div 2)] =
        x # map (\<lambda>k. xs ! (2 * k)) [0..<(length xs + 1) div 2]"
    by (simp add: map_upt_Suc del: upt_Suc)
  with 3 show ?case by simp
qed

lemma pool_ops_pairs:
  "pool_ops W wires =
     concat (map (\<lambda>k. [MidMeasure (wires ! (2 * k + 1)),
                       Conditional (MeasurementValue (wires ! (2 * k + 1)))
                         (U3 (W ! 0) (W ! 1) (W ! 2) (wires ! (2 * k)))])
       [0..<length wires div 2])"
  unfolding pool_ops_def odd_indices by (simp add: comp_def)

lemma measured_pairs:
  "measured (concat (map (\<lambda>k. [MidMeasure (a k), Conditional (m k) (g k)]) ks)) = map a ks"
  by (induction ks) (simp_all add: measured_def)

lemma survivors:
  assumes "distinct wires"
  shows "set wires - set (map (\<lambda>k. wires ! (2 * k + 1)) [0..<length wires div 2]) =
         set (stride2 wires)"
proof (intro set_eqI iffI)
  fix x
  assume x: "x \<in> set wires - set (map (\<lambda>k. wires ! (2 * k + 1)) [0..<length wires div 2])"
  then obtain i where i: "i < length wires" "x = wires ! i"
    by (auto simp: in_set_conv_nth)
  have "even i"
  proof (rule ccontr)
    assume "odd i"
    then obtain k where k: "i = 2 * k + 1" by (auto elim: oddE)
    with i have "k < length wires div 2" by simp
    with x i k show False by auto
  qed
  then obtain k where k: "i = 2 * k" by (auto elim: evenE)
  with i have "k < (length wires + 1) div 2" by simp
  with i k show "x \<in> set (stride2 wires)"
    by (subst stride2_nth) auto
next
  fix x
  assume "x \<in> set (stride2 wires)"
  then obtain k where k: "k < (length wires + 1) div 2" "x = wires ! (2 * k)"
    by (subst (asm) stride2_nth) auto
  then have lt: "2 * k < length wires" by simp
  have "x \<notin> set (map (\<lambda>k. wires ! (2 * k + 1)) [0..<length wires div 2])"
  proof
    assume "x \<in> set (map (\<lambda>k. wires ! (2 * k + 1)) [0..<length wires div 2])"
    then obtain k' where k': "k' < length wires div 2" "x = wires ! (2 * k' + 1)"
      by auto
    then have "2 * k' + 1 < length wires" by simp
    with assms lt k k' have "2 * k = 2 * k' + 1"
      by (simp add: nth_eq_iff_index_eq)
    then show False by presburger
  qed
  with k lt show "x \<in> set wires - set (map (\<lambda>k. wires ! (2 * k + 1)) [0..<length wires div 2])"
    by simp
qed

text \<open>
  Claim C4. On a wire list of length \<open>n \<ge> 2\<close>, with the three weights of one rotation,
  \<^verbatim>\<open>pooling_layer\<close> appends, for every \<open>k < n div 2\<close>, the measurement of the
  odd-indexed wire \<open>2k + 1\<close> and then a rotation of the even-indexed wire \<open>2k\<close> before it,
  conditioned on that measurement's outcome, and nothing else. So it measures exactly the
  odd-indexed wires, \<open>n div 2\<close> of them, and where the wires are distinct the wires it
  has not measured are the even-indexed ones, which is \<^verbatim>\<open>wires[::2]\<close>.
\<close>

theorem pooling_layer_measures_odd_wires:
  assumes "length W = 3" and "2 \<le> length wires"
  shows "pooling_layer W wires =
           (concat (map (\<lambda>k. [MidMeasure (wires ! (2 * k + 1)),
                              Conditional (MeasurementValue (wires ! (2 * k + 1)))
                                (U3 (W ! 0) (W ! 1) (W ! 2) (wires ! (2 * k)))])
              [0..<length wires div 2]), Inr ()) \<and>
         measured (fst (pooling_layer W wires)) =
           map (\<lambda>k. wires ! (2 * k + 1)) [0..<length wires div 2] \<and>
         length (measured (fst (pooling_layer W wires))) = length wires div 2 \<and>
         stride2 wires = map (\<lambda>k. wires ! (2 * k)) [0..<(length wires + 1) div 2] \<and>
         (distinct wires \<longrightarrow>
            set wires - set (measured (fst (pooling_layer W wires))) = set (stride2 wires))"
proof -
  have p: "pooling_layer W wires =
           (concat (map (\<lambda>k. [MidMeasure (wires ! (2 * k + 1)),
                              Conditional (MeasurementValue (wires ! (2 * k + 1)))
                                (U3 (W ! 0) (W ! 1) (W ! 2) (wires ! (2 * k)))])
              [0..<length wires div 2]), Inr ())"
    using pooling_layer_ops [OF assms] by (simp only: pool_ops_pairs)
  have m: "measured (fst (pooling_layer W wires)) =
           map (\<lambda>k. wires ! (2 * k + 1)) [0..<length wires div 2]"
    by (simp only: p fst_conv measured_pairs)
  have s: "distinct wires \<longrightarrow>
            set wires - set (measured (fst (pooling_layer W wires))) = set (stride2 wires)"
    unfolding m using survivors by blast
  have l: "length (measured (fst (pooling_layer W wires))) = length wires div 2"
    by (simp only: m) simp
  from p m l s stride2_nth [of wires] show ?thesis by blast
qed

theorem pooling_layer_measures_odd_wires_witness:
  "pooling_layer [1, 2, 3] [0, 2, 4] =
     ([MidMeasure 2, Conditional (MeasurementValue 2) (U3 1 2 3 0)], Inr ()) \<and>
   measured (fst (pooling_layer [1, 2, 3] [0, 2, 4])) = [2] \<and>
   set [0, 2, 4] - set (measured (fst (pooling_layer [1, 2, 3] [0, 2, 4]))) = set (stride2 [0, 2, 4::nat])"
  using pooling_layer_measures_odd_wires [of "[1, 2, 3]" "[0, 2, 4]"]
  by (auto simp: measured_def)

section \<open>The network's program\<close>

lemma conv_and_pooling_ops:
  assumes "length col = 18" and "3 \<le> length ws"
  shows "conv_and_pooling col ws = (round_ops col ws, Inr ())"
  using assms
  by (simp add: conv_and_pooling_def convolutional_layer_ops pooling_layer_ops andthen_ok
      round_ops_def)

lemma conv_rounds_ops:
  assumes "\<And>j. j < k \<Longrightarrow> length (W ! (a + j)) = 18 \<and> 3 \<le> length ((stride2 ^^ j) ws)"
  shows "conv_rounds W [a..<a + k] ws =
           (concat (map (\<lambda>j. round_ops (W ! (a + j)) ((stride2 ^^ j) ws)) [0..<k]),
            Inr ((stride2 ^^ k) ws))"
  using assms
proof (induction k arbitrary: a ws)
  case 0
  then show ?case by (simp add: returns_def)
next
  case (Suc k)
  have first: "conv_and_pooling (W ! a) ws = (round_ops (W ! a) ws, Inr ())"
    using Suc.prems [of 0] by (simp add: conv_and_pooling_ops)
  have rest: "conv_rounds W [Suc a..<Suc a + k] (stride2 ws) =
      (concat (map (\<lambda>j. round_ops (W ! (Suc a + j)) ((stride2 ^^ j) (stride2 ws))) [0..<k]),
       Inr ((stride2 ^^ k) (stride2 ws)))"
  proof (rule Suc.IH)
    fix j assume "j < k"
    then show "length (W ! (Suc a + j)) = 18 \<and> 3 \<le> length ((stride2 ^^ j) (stride2 ws))"
      using Suc.prems [of "Suc j"] by (simp add: funpow_swap1)
  qed
  have upt: "[a..<a + Suc k] = a # [Suc a..<Suc a + k]"
    by (simp add: upt_conv_Cons)
  have idx: "[0..<Suc k] = 0 # map Suc [0..<k]"
    by (simp add: upt_conv_Cons map_Suc_upt del: upt_Suc)
  show ?case
    by (simp only: upt conv_rounds.simps column_def first rest andthen_ok idx)
       (simp add: funpow_swap1 comp_def)
qed

lemma active_wires_values:
  "active_wires 0 = [0, 1, 2, 3, 4, 5]"
  "active_wires 1 = [0, 2, 4]"
  "active_wires 2 = [0, 4]"
  by (simp_all add: active_wires_def num_wires_def upt_conv_Cons numeral_2_eq_2)

lemma conv_rounds_net:
  assumes "length W \<le> 2" and "\<forall>col \<in> set W. length col = 18"
  shows "conv_rounds W [0..<length W] [0..<num_wires] =
           (rounds_ops W, Inr (active_wires (length W)))"
proof -
  have "conv_rounds W [0..<0 + length W] [0..<num_wires] =
      (concat (map (\<lambda>j. round_ops (W ! (0 + j)) ((stride2 ^^ j) [0..<num_wires])) [0..<length W]),
       Inr ((stride2 ^^ length W) [0..<num_wires]))"
  proof (rule conv_rounds_ops)
    fix j assume j: "j < length W"
    with assms(1) have "j = 0 \<or> j = 1" by auto
    then have "3 \<le> length (active_wires j)"
      using active_wires_values(1,2) by auto
    with j assms(2) show "length (W ! (0 + j)) = 18 \<and> 3 \<le> length ((stride2 ^^ j) [0..<num_wires])"
      by (simp add: active_wires_def)
  qed
  then show ?thesis by (simp add: rounds_ops_def active_wires_def)
qed

lemma conv_net_qfunc_cases:
  assumes "length W \<le> 2" and "\<forall>col \<in> set W. length col = 18"
  shows "conv_net_qfunc W WL f =
           (if length WL = 4 ^ length (active_wires (length W)) - 1
            then (net_ops W WL f, Inr ())
            else (AmplitudeEmbedding f [0..<num_wires] (1 / 2) # rounds_ops W,
                  Inl (AssertionError
                    (size_message (4 ^ length (active_wires (length W)) - 1) (length WL)))))"
  by (simp add: conv_net_qfunc_def Let_def shape1_def conv_rounds_net [OF assms] apply_op_def
      andthen_ok bind_ok dense_layer_def arbitrary_unitary_def raise_def net_ops_def)

lemma active_wires_Suc:
  "active_wires (Suc 0) = [0, 2, 4]"
  "active_wires (Suc (Suc 0)) = [0, 4]"
  by (simp_all add: active_wires_def num_wires_def upt_conv_Cons)

text \<open>
  Claim C3, as the code has it. Not every weight tensor goes through: the tensor must
  have at most two columns, since a third round finds two wires and the convolutional
  layer wants three; the columns must have 18 entries, and the last layer must fit the
  wires left. For weights of such a shape \<^verbatim>\<open>conv_net\<close> records, in this order: the
  amplitude embedding of the features on all six wires with the padding constant 0.5; for every layer index \<open>j\<close> below the number of columns, the convolutional
  layer with the first 15 entries of column \<open>j\<close> and then the pooling layer with the
  remaining entries, both on the wires active in round \<open>j\<close>, where the active wires start
  as all wires and every round keeps every other one; the dense layer on the wires left;
  and the probabilities of wire 0. The call returns what the device gives for that
  program.
\<close>

theorem conv_net_program:
  assumes "valid_weights W WL"
  shows "conv_net_qfunc W WL features =
           (AmplitudeEmbedding features [0..<num_wires] (1 / 2) #
            rounds_ops W @
            [ArbitraryUnitary WL (active_wires (length W)), Probs [0]], Inr ()) \<and>
         rounds_ops W =
           concat (map (\<lambda>j. conv_ops (take 15 (W ! j)) (active_wires j) True @
                             pool_ops (drop 15 (W ! j)) (active_wires j)) [0..<length W]) \<and>
         active_wires 0 = [0..<num_wires] \<and>
         (\<forall>j. active_wires (Suc j) = stride2 (active_wires j)) \<and>
         conv_net dev W WL features = Inr (dev (net_ops W WL features))"
proof -
  from assms have shape: "length W \<le> 2" "\<forall>col \<in> set W. length col = 18"
    and last: "length WL = 4 ^ length (active_wires (length W)) - 1"
    by (simp_all add: valid_weights_def)
  have q: "conv_net_qfunc W WL features = (net_ops W WL features, Inr ())"
    using conv_net_qfunc_cases [OF shape] last by simp
  then have "conv_net dev W WL features = Inr (dev (net_ops W WL features))"
    by (simp add: conv_net_def)
  with q show ?thesis
    by (simp add: net_ops_def rounds_ops_def round_ops_def active_wires_def)
qed

theorem conv_net_program_witness:
  "valid_weights [replicate 18 1, replicate 18 2] (replicate 15 3) \<and>
   conv_net_qfunc [replicate 18 1, replicate 18 2] (replicate 15 3) [1, 0] =
     (net_ops [replicate 18 1, replicate 18 2] (replicate 15 3) [1, 0], Inr ()) \<and>
   active_wires (length [replicate 18 1, replicate 18 (2::real)]) = [0, 4]"
proof -
  have v: "valid_weights [replicate 18 1, replicate 18 2] (replicate 15 3)"
    by (simp add: valid_weights_def active_wires_def num_wires_def upt_conv_Cons)
  have a: "active_wires (length [replicate 18 1, replicate 18 (2::real)]) = [0, 4]"
    by (simp add: active_wires_def num_wires_def upt_conv_Cons)
  from v a conv_net_program [OF v, of "[1, 0]"] show ?thesis
    by (simp add: net_ops_def)
qed

text \<open>
  The claim C3 as stated is about every weight tensor with \<open>L\<close> columns. With three
  columns of 18 weights the third round is called on the two wires 0 and 4: the
  convolutional layer's assertion fails when 52 operations are in the program, no dense
  layer is applied and no probabilities are returned.
\<close>

theorem conv_net_third_round_too_small:
  "snd (conv_net_qfunc [replicate 18 0, replicate 18 0, replicate 18 0] [0, 0, 0] [1]) =
     Inl (AssertionError ''this circuit is too small!'') \<and>
   length (fst (conv_net_qfunc [replicate 18 0, replicate 18 0, replicate 18 0] [0, 0, 0] [1])) = 52 \<and>
   conv_net example_device [replicate 18 0, replicate 18 0, replicate 18 0] [0, 0, 0] [1] =
     Inl (AssertionError ''this circuit is too small!'')"
proof -
  let ?W = "[replicate 18 0, replicate 18 0, replicate 18 (0::real)]"
  have w: "[0..<num_wires] = [0, 1, 2, 3, 4, 5]"
    by (simp add: num_wires_def upt_conv_Cons)
  have r0: "conv_and_pooling (column ?W 0) [0, 1, 2, 3, 4, 5] =
      (round_ops (replicate 18 0) [0, 1, 2, 3, 4, 5], Inr ())"
    by (simp add: column_def conv_and_pooling_ops)
  have r1: "conv_and_pooling (column ?W 1) [0, 2, 4] =
      (round_ops (replicate 18 0) [0, 2, 4], Inr ())"
    by (simp add: column_def conv_and_pooling_ops)
  have r2: "conv_and_pooling (column ?W 2) [0, 4] =
      ([], Inl (AssertionError ''this circuit is too small!''))"
    by (simp add: conv_and_pooling_def convolutional_layer_def raise_def andthen_def bind_def)
  have rounds: "conv_rounds ?W [0..<shape1 ?W] [0..<num_wires] =
      (round_ops (replicate 18 0) [0, 1, 2, 3, 4, 5] @ round_ops (replicate 18 0) [0, 2, 4],
       Inl (AssertionError ''this circuit is too small!''))"
  proof -
    have "[0..<shape1 ?W] = [0, 1, 2]"
      by (simp add: shape1_def upt_conv_Cons)
    then show ?thesis
      unfolding w
      by (simp only: conv_rounds.simps stride2.simps r0 r1 r2 andthen_ok)
         (simp add: andthen_def bind_def)
  qed
  have q: "conv_net_qfunc ?W [0, 0, 0] [1] =
      (AmplitudeEmbedding [1] [0, 1, 2, 3, 4, 5] (1 / 2) #
       round_ops (replicate 18 0) [0, 1, 2, 3, 4, 5] @ round_ops (replicate 18 0) [0, 2, 4],
       Inl (AssertionError ''this circuit is too small!''))"
    unfolding conv_net_qfunc_def Let_def rounds
    by (simp add: w apply_op_def andthen_def bind_def)
  have l: "length (round_ops (replicate 18 0) [0, 1, 2, 3, 4, 5] @
                   round_ops (replicate 18 0) [0, 2, 4]) = 51"
    by (simp add: round_ops_def conv_ops_def pool_ops_def pair_ops_def upt_conv_Cons)
  have len: "length (fst (conv_net_qfunc ?W [0, 0, 0] [1])) = 52"
    unfolding q fst_conv using l by simp
  from len show ?thesis
    by (simp add: q conv_net_def)
qed

text \<open>
  Claim C2, as the code has it. The size of the last layer's weights is checked after the
  loop of rounds, just before the dense layer: when the rounds go through and the size
  differs from \<open>4^k - 1\<close> for the \<open>k\<close> wires left, the call ends with the assertion
  error whose message names the expected and the given size. The embedding and the
  operations of all rounds are in the program by then; the dense layer's gate and the
  measurement are not. \<^verbatim>\<open>dense_layer\<close> on its own rejects such a vector without
  appending anything.
\<close>

theorem conv_net_size_mismatch:
  assumes "length W \<le> 2" and "\<forall>col \<in> set W. length col = 18"
    and "length WL \<noteq> 4 ^ length (active_wires (length W)) - 1"
  shows "conv_net_qfunc W WL features =
           (AmplitudeEmbedding features [0..<num_wires] (1 / 2) # rounds_ops W,
            Inl (AssertionError
              (size_message (4 ^ length (active_wires (length W)) - 1) (length WL)))) \<and>
         conv_net dev W WL features =
            Inl (AssertionError
              (size_message (4 ^ length (active_wires (length W)) - 1) (length WL))) \<and>
         dense_layer WL (active_wires (length W)) = ([], Inl ValueError)"
  using conv_net_qfunc_cases [OF assms(1,2)] assms(3)
  by (simp add: conv_net_def dense_layer_def arbitrary_unitary_def raise_def)

theorem conv_net_size_mismatch_witness:
  "conv_net (\<lambda>ops. [1, 0]) [replicate 18 1] [7] [1, 0] =
     Inl (AssertionError (size_message 63 1)) \<and>
   dense_layer [7] [0, 2, 4] = ([], Inl ValueError)"
proof -
  have "length [7::real] \<noteq> 4 ^ length (active_wires (length [replicate 18 (1::real)])) - 1"
    by (simp add: active_wires_Suc)
  with conv_net_size_mismatch [of "[replicate 18 1]" "[7]" "[1, 0]" "\<lambda>ops. [1, 0]"]
  show ?thesis
    by (simp add: active_wires_Suc)
qed

text \<open>
  The claim C2 as stated has the mismatch reported before any gate is emitted. With two
  columns of 18 weights and a last layer of 3 weights instead of 15, the assertion fails
  when 52 operations are already in the program, the embedding first.
\<close>

theorem conv_net_size_mismatch_after_gates:
  "snd (conv_net_qfunc [replicate 18 0, replicate 18 0] [0, 0, 0] [1]) =
     Inl (AssertionError
       (''The size of the last layer weights vector is incorrect! '' @ [CHR 0x0A] @
        '' Expected 15, Given 3'')) \<and>
   hd (fst (conv_net_qfunc [replicate 18 0, replicate 18 0] [0, 0, 0] [1])) =
     AmplitudeEmbedding [1] [0, 1, 2, 3, 4, 5] (1 / 2) \<and>
   length (fst (conv_net_qfunc [replicate 18 0, replicate 18 0] [0, 0, 0] [1])) = 52"
proof -
  have q: "conv_net_qfunc [replicate 18 0, replicate 18 0] [0, 0, 0] [1] =
      (AmplitudeEmbedding [1] [0..<num_wires] (1 / 2) # rounds_ops [replicate 18 0, replicate 18 0],
       Inl (AssertionError (size_message 15 3)))"
    using conv_net_qfunc_cases [of "[replicate 18 0, replicate 18 0]" "[0, 0, 0]" "[1]"]
    by (simp add: active_wires_Suc numeral_3_eq_3)
  have m: "size_message 15 3 =
      ''The size of the last layer weights vector is incorrect! '' @ [CHR 0x0A] @
        '' Expected 15, Given 3''"
    by (simp add: size_message_def)
  have w: "[0..<num_wires] = [0, 1, 2, 3, 4, 5]"
    by (simp add: num_wires_def upt_conv_Cons)
  have l: "length (rounds_ops [replicate 18 0, replicate 18 0]) = 51"
    by (simp add: rounds_ops_def round_ops_def conv_ops_def pool_ops_def pair_ops_def
        active_wires_def num_wires_def upt_conv_Cons)
  show ?thesis by (simp add: q m w l)
qed

section \<open>Cost and accuracy of a batch\<close>

lemma collect_map_Inr: "collect (map (\<lambda>z. Inr (g z)) zs) = Inr (map g zs)"
  by (induction zs) simp_all

lemma collect_Inl_mem: "collect rs = Inl e \<Longrightarrow> Inl e \<in> set rs"
  by (induction rs arbitrary: e) (auto split: sum.splits)

lemma collect_raises: "Inl e \<in> set rs \<Longrightarrow> \<exists>e'. collect rs = Inl e'"
  by (induction rs) (auto split: sum.splits)

lemma cost_valid:
  assumes "valid_weights W WL" and "y < length (dev (net_ops W WL x))"
  shows "cost dev W WL x y = Inr (dev (net_ops W WL x) ! y)"
proof -
  from assms have shape: "length W \<le> 2" "\<forall>col \<in> set W. length col = 18"
    and last: "length WL = 4 ^ length (active_wires (length W)) - 1"
    by (simp_all add: valid_weights_def)
  have "conv_net_qfunc W WL x = (net_ops W WL x, Inr ())"
    using conv_net_qfunc_cases [OF shape] last by simp
  moreover from assms(2) have "dev (net_ops W WL x) \<noteq> []"
    and "min y (length (dev (net_ops W WL x)) - 1) = y"
    by auto
  ultimately show ?thesis by (simp add: cost_def conv_net_def)
qed

lemma compute_out_valid:
  assumes "valid_weights W WL" and "length X = length Y"
    and "\<forall>i < length X. Y ! i < length (dev (net_ops W WL (X ! i)))"
  shows "compute_out dev W WL X Y =
           Inr (map (\<lambda>i. dev (net_ops W WL (X ! i)) ! (Y ! i)) [0..<length X])"
proof -
  have z: "zip X Y = map (\<lambda>i. (X ! i, Y ! i)) [0..<length X]"
    using assms(2) by (intro nth_equalityI) simp_all
  have "map (\<lambda>(x, y). cost dev W WL x y) (zip X Y) =
        map (\<lambda>i. Inr (dev (net_ops W WL (X ! i)) ! (Y ! i))) [0..<length X]"
    unfolding z using assms(3) by (simp add: cost_valid [OF assms(1)])
  then show ?thesis
    using assms(2) by (simp add: compute_out_def vmap_def collect_map_Inr)
qed

lemma sum_list_map_upt: "sum_list (map f [0..<n]) = (\<Sum>i<n. f i)"
  by (simp add: sum_list_sum_nth atLeast0LessThan)

lemma compute_out_selected:
  assumes "valid_weights W WL" and "length X = length Y"
    and "\<forall>i < length X. Y ! i < length (dev (net_ops W WL (X ! i)))"
  shows "compute_out dev W WL X Y = Inr (map (selected dev W WL X Y) [0..<length X])"
  using compute_out_valid [OF assms] by (simp add: selected_def)

lemma length_filter_upt:
  "length (filter P (map f [0..<n])) = card {i. i < n \<and> P (f i)}"
proof -
  have "{i. i < length (map f [0..<n]) \<and> P (map f [0..<n] ! i)} = {i. i < n \<and> P (f i)}"
    by auto
  then show ?thesis by (simp add: length_filter_conv_card)
qed

lemma card_below_all:
  "card {i. i < n \<and> P i} \<le> n" "card {i. i < n \<and> P i} = n \<longleftrightarrow> (\<forall>i<n. P i)"
proof -
  have sub: "{i. i < n \<and> P i} \<subseteq> {..<n}" by auto
  then have "card {i. i < n \<and> P i} \<le> card {..<n}"
    by (intro card_mono) simp_all
  then show "card {i. i < n \<and> P i} \<le> n" by simp
  show "card {i. i < n \<and> P i} = n \<longleftrightarrow> (\<forall>i<n. P i)"
  proof
    assume "card {i. i < n \<and> P i} = n"
    then have "card {i. i < n \<and> P i} = card {..<n}" by simp
    with sub have "{i. i < n \<and> P i} = {..<n}"
      by (intro card_subset_eq) simp_all
    then show "\<forall>i<n. P i" by auto
  next
    assume "\<forall>i<n. P i"
    then have "{i. i < n \<and> P i} = {..<n}" by auto
    then show "card {i. i < n \<and> P i} = n" by simp
  qed
qed

lemma example_weights_valid: "valid_weights [replicate 18 1, replicate 18 2] (replicate 15 3)"
  by (simp add: valid_weights_def active_wires_Suc)

lemma example_device_net [simp]:
  "example_device (net_ops W WL (a # x)) = [a, 1 - a]"
  by (simp add: example_device_def net_ops_def)

text \<open>
  Claim C7. For weights the network accepts and a batch that is not empty, with as many
  labels as feature vectors and every label an index of the network's probability
  vector, \<^verbatim>\<open>compute_cost\<close> returns 1 minus the mean over the batch of the selected
  probabilities, where the selected probability of a sample is the entry at its label of
  what \<^verbatim>\<open>conv_net\<close> returns for its features.
\<close>

theorem compute_cost_one_minus_mean:
  assumes "valid_weights W WL" and "X \<noteq> []" and "length X = length Y"
    and "\<forall>i < length X. Y ! i < length (dev (net_ops W WL (X ! i)))"
  shows "compute_cost dev W WL X Y =
           Inr (Num (1 - (\<Sum>i<length X. selected dev W WL X Y i) / real (length X))) \<and>
         (\<forall>i < length X. \<exists>probs. conv_net dev W WL (X ! i) = Inr probs \<and>
              Y ! i < length probs \<and> selected dev W WL X Y i = probs ! (Y ! i))"
proof -
  from assms(1) have shape: "length W \<le> 2" "\<forall>col \<in> set W. length col = 18"
    and last: "length WL = 4 ^ length (active_wires (length W)) - 1"
    by (simp_all add: valid_weights_def)
  have n: "\<And>x. conv_net dev W WL x = Inr (dev (net_ops W WL x))"
    using conv_net_qfunc_cases [OF shape] last by (simp add: conv_net_def)
  from assms(2,3) have "length Y \<noteq> 0" by auto
  then have "compute_cost dev W WL X Y =
           Inr (Num (1 - (\<Sum>i<length X. selected dev W WL X Y i) / real (length X)))"
    using assms(3)
    by (simp add: compute_cost_def compute_out_selected [OF assms(1,3,4)] fdiv_def
        sum_list_map_upt)
  with assms(4) show ?thesis by (simp add: n selected_def)
qed

theorem compute_cost_one_minus_mean_witness:
  "compute_cost example_device [replicate 18 1, replicate 18 2] (replicate 15 3)
     [[1 / 4], [3 / 4]] [0, 1] = Inr (Num (3 / 4))"
  using compute_cost_one_minus_mean [OF example_weights_valid, of "[[1 / 4], [3 / 4]]" "[0, 1]"
      example_device]
  by (simp add: selected_def less_Suc_eq numeral_2_eq_2 lessThan_Suc)

text \<open>
  Claim C8. Under the same conditions \<^verbatim>\<open>compute_accuracy\<close> returns the number of
  samples whose selected probability is strictly above 0.5, divided by the size of the
  batch. The value lies between 0 and 1, and it is 1 exactly when every sample's selected
  probability is strictly above 0.5. In the example the first sample sits at exactly 0.5
  and does not count.
\<close>

theorem compute_accuracy_fraction:
  assumes "valid_weights W WL" and "X \<noteq> []" and "length X = length Y"
    and "\<forall>i < length X. Y ! i < length (dev (net_ops W WL (X ! i)))"
  shows "compute_accuracy dev W WL X Y =
           Inr (Num (real (card {i. i < length X \<and> 1 / 2 < selected dev W WL X Y i}) /
                     real (length X))) \<and>
         (\<exists>a. compute_accuracy dev W WL X Y = Inr (Num a) \<and> 0 \<le> a \<and> a \<le> 1) \<and>
         (compute_accuracy dev W WL X Y = Inr (Num 1) \<longleftrightarrow>
            (\<forall>i < length X. 1 / 2 < selected dev W WL X Y i))"
proof -
  let ?n = "length X"
  let ?c = "card {i. i < ?n \<and> 1 / 2 < selected dev W WL X Y i}"
  from assms(2) have pos: "0 < ?n" by simp
  have len: "length (filter (\<lambda>p. p > 1 / 2) (map (selected dev W WL X Y) [0..<?n])) = ?c"
    by (rule length_filter_upt)
  have "compute_accuracy dev W WL X Y =
      Inr (fdiv (real (length (filter (\<lambda>p. p > 1 / 2) (map (selected dev W WL X Y) [0..<?n]))))
             (length (map (selected dev W WL X Y) [0..<?n])))"
    by (simp only: compute_accuracy_def compute_out_selected [OF assms(1,3,4)] sum.case)
  then have acc: "compute_accuracy dev W WL X Y = Inr (Num (real ?c / real ?n))"
    using pos by (simp only: len) (simp add: fdiv_def)
  have le: "?c \<le> ?n" by (rule card_below_all(1))
  then have range: "0 \<le> real ?c / real ?n \<and> real ?c / real ?n \<le> 1"
    using pos by simp
  have "real ?c / real ?n = 1 \<longleftrightarrow> ?c = ?n"
    using pos by auto
  also have "\<dots> \<longleftrightarrow> (\<forall>i < ?n. 1 / 2 < selected dev W WL X Y i)"
    by (rule card_below_all(2))
  finally have one: "real ?c / real ?n = 1 \<longleftrightarrow> (\<forall>i < ?n. 1 / 2 < selected dev W WL X Y i)" .
  from acc range one show ?thesis by simp
qed

theorem compute_accuracy_fraction_witness:
  "compute_accuracy example_device [replicate 18 1, replicate 18 2] (replicate 15 3)
     [[1 / 2], [3 / 4]] [0, 0] = Inr (Num (1 / 2)) \<and>
   compute_accuracy example_device [replicate 18 1, replicate 18 2] (replicate 15 3)
     [[1 / 2], [3 / 4]] [0, 0] \<noteq> Inr (Num 1)"
proof -
  have c: "{i. i < length [[1 / 2], [3 / 4 :: real]] \<and>
             1 / 2 < selected example_device [replicate 18 1, replicate 18 2] (replicate 15 3)
                       [[1 / 2], [3 / 4]] [0, 0] i} = {1}"
    by (auto simp: selected_def less_Suc_eq numeral_2_eq_2 nth_Cons')
  have h: "\<forall>i < length [[1 / 2], [3 / 4 :: real]].
      [0, 0] ! i < length (example_device
        (net_ops [replicate 18 1, replicate 18 2] (replicate 15 3) ([[1 / 2], [3 / 4]] ! i)))"
    by (simp add: less_Suc_eq numeral_2_eq_2 nth_Cons')
  have t: "compute_accuracy example_device [replicate 18 1, replicate 18 2] (replicate 15 3)
     [[1 / 2], [3 / 4]] [0, 0] =
        Inr (Num (real (card {i. i < length [[1 / 2], [3 / 4 :: real]] \<and>
             1 / 2 < selected example_device [replicate 18 1, replicate 18 2] (replicate 15 3)
                       [[1 / 2], [3 / 4]] [0, 0] i}) / real (length [[1 / 2], [3 / 4 :: real]])))"
    using compute_accuracy_fraction [OF example_weights_valid _ _ h] by simp
  show ?thesis unfolding t c by simp
qed

section \<open>Reordering a batch\<close>

lemma snd_conv_net_qfunc:
  "snd (conv_net_qfunc W WL x) = snd (conv_net_qfunc W WL x')"
  by (simp add: conv_net_qfunc_def Let_def apply_op_def andthen_def bind_def split: prod.splits)

lemma cost_errors_agree:
  assumes "cost dev W WL x y = Inl e" and "cost dev W WL x' y' = Inl e'"
  shows "e = e'"
proof (cases "snd (conv_net_qfunc W WL x)")
  case (Inl e0)
  moreover from Inl have "snd (conv_net_qfunc W WL x') = Inl e0"
    using snd_conv_net_qfunc [of W WL x' x] by simp
  ultimately show ?thesis
    using assms by (auto simp: cost_def conv_net_def split: prod.splits)
next
  case (Inr u)
  moreover from Inr have "snd (conv_net_qfunc W WL x') = Inr u"
    using snd_conv_net_qfunc [of W WL x' x] by simp
  ultimately show ?thesis
    using assms by (auto simp: cost_def conv_net_def split: prod.splits if_splits)
qed

lemma collect_all_Inr:
  assumes "\<And>e. Inl e \<notin> set rs"
  shows "collect rs = Inr (map projr rs)"
  using assms
proof (induction rs)
  case Nil
  then show ?case by simp
next
  case (Cons r rs)
  from Cons.prems [of "projl r"] obtain v where "r = Inr v"
    by (cases r) auto
  moreover have "collect rs = Inr (map projr rs)"
    using Cons.prems by (intro Cons.IH) auto
  ultimately show ?case by simp
qed

lemma collect_perm:
  assumes "mset rs' = mset rs"
    and agree: "\<And>e e'. Inl e \<in> set rs \<Longrightarrow> Inl e' \<in> set rs \<Longrightarrow> e = e'"
  shows "(\<exists>e. collect rs' = Inl e \<and> collect rs = Inl e) \<or>
         (\<exists>vs' vs. collect rs' = Inr vs' \<and> collect rs = Inr vs \<and> mset vs' = mset vs)"
proof (cases "\<exists>e. Inl e \<in> set rs")
  case True
  from assms(1) have s: "set rs' = set rs" by (rule mset_eq_setD)
  from True obtain e1 where e1: "collect rs = Inl e1"
    using collect_raises by blast
  from True s obtain e2 where e2: "collect rs' = Inl e2"
    using collect_raises by blast
  from e1 have "Inl e1 \<in> set rs" by (rule collect_Inl_mem)
  moreover from e2 s have "Inl e2 \<in> set rs" using collect_Inl_mem by blast
  ultimately have "e1 = e2" by (rule agree)
  with e1 e2 show ?thesis by simp
next
  case False
  from assms(1) have s: "set rs' = set rs" by (rule mset_eq_setD)
  from False have a: "collect rs = Inr (map projr rs)"
    by (intro collect_all_Inr) auto
  from False s have b: "collect rs' = Inr (map projr rs')"
    by (intro collect_all_Inr) auto
  have "mset (map projr rs') = mset (map projr rs)"
    using assms(1) by simp
  with a b show ?thesis by simp
qed

lemma compute_out_pairs:
  "compute_out dev W WL (map fst B) (map snd B) =
     collect (map (\<lambda>(x, y). cost dev W WL x y) B)"
  by (simp add: compute_out_def vmap_def zip_map_fst_snd)

lemma compute_out_perm:
  assumes "mset B' = mset B"
  shows "(\<exists>e. compute_out dev W WL (map fst B') (map snd B') = Inl e \<and>
              compute_out dev W WL (map fst B) (map snd B) = Inl e) \<or>
         (\<exists>vs' vs. compute_out dev W WL (map fst B') (map snd B') = Inr vs' \<and>
              compute_out dev W WL (map fst B) (map snd B) = Inr vs \<and> mset vs' = mset vs)"
  unfolding compute_out_pairs
proof (rule collect_perm)
  show "mset (map (\<lambda>(x, y). cost dev W WL x y) B') = mset (map (\<lambda>(x, y). cost dev W WL x y) B)"
    using assms by simp
  fix e e'
  assume "Inl e \<in> set (map (\<lambda>(x, y). cost dev W WL x y) B)"
    and "Inl e' \<in> set (map (\<lambda>(x, y). cost dev W WL x y) B)"
  then show "e = e'"
    by (auto dest: cost_errors_agree [OF sym sym])
qed

text \<open>
  The accuracy of a batch is a count of samples divided by the size of the batch, so it
  does not change when the features and the labels are reordered together, for all
  weights and devices, also where recording the circuit raises. The cost of a batch is a
  floating-point sum of the selected probabilities; its last bits depend on the order of
  the summands, which a sum of real numbers does not show, and nothing is stated about
  it here.
\<close>

lemma accuracy_order_independent:
  assumes "length X = length Y" and "mset p = mset [0..<length X]"
  shows "compute_accuracy dev W WL (map ((!) X) p) (map ((!) Y) p) =
           compute_accuracy dev W WL X Y"
proof -
  let ?B = "zip X Y"
  let ?B' = "map ((!) (zip X Y)) p"
  from assms(2) have "set p = set [0..<length X]" by (rule mset_eq_setD)
  then have inb: "\<And>i. i \<in> set p \<Longrightarrow> i < length X" by simp
  have f: "map fst ?B' = map ((!) X) p" and s: "map snd ?B' = map ((!) Y) p"
    using inb assms(1) by simp_all
  have "mset ?B' = image_mset ((!) ?B) (mset p)" by simp
  also have "\<dots> = mset (map ((!) ?B) [0..<length ?B])"
    using assms by simp
  also have "\<dots> = mset ?B" by (simp only: map_nth)
  finally have m: "mset ?B' = mset ?B" .
  have f0: "map fst ?B = X" and s0: "map snd ?B = Y"
    using assms(1) by simp_all
  have "compute_accuracy dev W WL (map fst ?B') (map snd ?B') =
           compute_accuracy dev W WL (map fst ?B) (map snd ?B)"
  proof -
    from compute_out_perm [OF m, of dev W WL] show ?thesis
    proof (elim disjE exE conjE)
      fix e
      assume "compute_out dev W WL (map fst ?B') (map snd ?B') = Inl e"
        "compute_out dev W WL (map fst ?B) (map snd ?B) = Inl e"
      then show ?thesis by (simp only: compute_accuracy_def sum.case)
    next
      fix vs' vs
      assume o: "compute_out dev W WL (map fst ?B') (map snd ?B') = Inr vs'"
        "compute_out dev W WL (map fst ?B) (map snd ?B) = Inr vs" and mv: "mset vs' = mset vs"
      from mv have ll: "length vs' = length vs" by (rule mset_eq_length)
      have fl: "length (filter (\<lambda>p. p > 1 / 2) vs') = length (filter (\<lambda>p. p > 1 / 2) vs)"
        using mv by (metis mset_filter size_mset)
      show ?thesis by (simp only: compute_accuracy_def o sum.case fl ll)
    qed
  qed
  then show ?thesis by (simp only: f s f0 s0)
qed

section \<open>The training loop's records\<close>

lemma evaluation_succeeds:
  assumes "valid_weights W WL" and "length X = length Y" and "\<forall>y \<in> set Y. y < 2"
    and "\<And>ops. length (dev ops) = 2"
  shows "\<exists>a. compute_cost dev W WL X Y = Inr a" and "\<exists>a. compute_accuracy dev W WL X Y = Inr a"
proof -
  have "\<forall>i < length X. Y ! i < length (dev (net_ops W WL (X ! i)))"
    using assms(2,3,4) by simp
  from compute_out_valid [OF assms(1,2) this]
  show "\<exists>a. compute_cost dev W WL X Y = Inr a" and "\<exists>a. compute_accuracy dev W WL X Y = Inr a"
    by (simp_all add: compute_cost_def compute_accuracy_def)
qed

lemma epoch_step:
  assumes start: "((weights s, weights_last s), opt_state s) = params_at c m"
    and tc: "compute_cost (device c) (weights_at c m) (last_at c m) (x_train c) (y_train c) = Inr tc"
    and ta: "compute_accuracy (device c) (weights_at c (Suc m)) (last_at c (Suc m))
               (x_train c) (y_train c) = Inr ta"
    and tec: "compute_cost (device c) (weights_at c (Suc m)) (last_at c (Suc m))
               (x_test c) (y_test c) = Inr tec"
    and tea: "compute_accuracy (device c) (weights_at c (Suc m)) (last_at c (Suc m))
               (x_test c) (y_test c) = Inr tea"
  shows "epoch c s =
           Inr \<lparr>weights = weights_at c (Suc m), weights_last = last_at c (Suc m),
                opt_state = snd (params_at c (Suc m)),
                train_cost_epochs = train_cost_epochs s @ [tc],
                test_cost_epochs = test_cost_epochs s @ [tec],
                train_acc_epochs = train_acc_epochs s @ [ta],
                test_acc_epochs = test_acc_epochs s @ [tea]\<rparr>"
proof -
  from start have w: "weights s = weights_at c m" "weights_last s = last_at c m"
    and o: "opt_state s = snd (params_at c m)"
    and f: "fst (params_at c m) = (weights s, weights_last s)"
    by (simp_all add: weights_at_def last_at_def flip: start)
  have obj: "objective c (weights s, weights_last s) = Inr tc"
    using tc by (simp add: objective_def w)
  obtain w' wl' opt' where u: "params_at c (Suc m) = ((w', wl'), opt')"
    by (metis surj_pair)
  then have upd: "update c (opt_state s) (objective c) (weights s, weights_last s) = ((w', wl'), opt')"
    by (simp add: o f objective_def)
  from u have at: "weights_at c (Suc m) = w'" "last_at c (Suc m) = wl'"
    and p: "snd (params_at c (Suc m)) = opt'"
    by (simp_all only: weights_at_def last_at_def fst_conv snd_conv)
  show ?thesis
    using ta tec tea unfolding at p
    by (simp add: epoch_def step_and_cost_def obj upd)
qed

lemma train_loop_from:
  assumes start: "((weights s, weights_last s), opt_state s) = params_at c m"
    and tc: "\<And>k. k \<le> m + length js \<Longrightarrow>
               \<exists>a. compute_cost (device c) (weights_at c k) (last_at c k) (x_train c) (y_train c) = Inr a"
    and ta: "\<And>k. k \<le> m + length js \<Longrightarrow>
               \<exists>a. compute_accuracy (device c) (weights_at c k) (last_at c k) (x_train c) (y_train c) = Inr a"
    and tec: "\<And>k. k \<le> m + length js \<Longrightarrow>
               \<exists>a. compute_cost (device c) (weights_at c k) (last_at c k) (x_test c) (y_test c) = Inr a"
    and tea: "\<And>k. k \<le> m + length js \<Longrightarrow>
               \<exists>a. compute_accuracy (device c) (weights_at c k) (last_at c k) (x_test c) (y_test c) = Inr a"
  shows "\<exists>s'. train_loop c js s = Inr s' \<and>
           ((weights s', weights_last s'), opt_state s') = params_at c (m + length js) \<and>
           map Inr (train_cost_epochs s') = map Inr (train_cost_epochs s) @
             map (\<lambda>k. compute_cost (device c) (weights_at c k) (last_at c k)
                         (x_train c) (y_train c)) [m..<m + length js] \<and>
           map Inr (train_acc_epochs s') = map Inr (train_acc_epochs s) @
             map (\<lambda>k. compute_accuracy (device c) (weights_at c (Suc k)) (last_at c (Suc k))
                         (x_train c) (y_train c)) [m..<m + length js] \<and>
           map Inr (test_cost_epochs s') = map Inr (test_cost_epochs s) @
             map (\<lambda>k. compute_cost (device c) (weights_at c (Suc k)) (last_at c (Suc k))
                         (x_test c) (y_test c)) [m..<m + length js] \<and>
           map Inr (test_acc_epochs s') = map Inr (test_acc_epochs s) @
             map (\<lambda>k. compute_accuracy (device c) (weights_at c (Suc k)) (last_at c (Suc k))
                         (x_test c) (y_test c)) [m..<m + length js]"
  using assms
proof (induction js arbitrary: s m)
  case Nil
  then show ?case by simp
next
  case (Cons j js)
  from Cons.prems(2) [of m] obtain a1 where a1:
    "compute_cost (device c) (weights_at c m) (last_at c m) (x_train c) (y_train c) = Inr a1"
    by auto
  from Cons.prems(3) [of "Suc m"] obtain a2 where a2:
    "compute_accuracy (device c) (weights_at c (Suc m)) (last_at c (Suc m))
       (x_train c) (y_train c) = Inr a2"
    by auto
  from Cons.prems(4) [of "Suc m"] obtain a3 where a3:
    "compute_cost (device c) (weights_at c (Suc m)) (last_at c (Suc m))
       (x_test c) (y_test c) = Inr a3"
    by auto
  from Cons.prems(5) [of "Suc m"] obtain a4 where a4:
    "compute_accuracy (device c) (weights_at c (Suc m)) (last_at c (Suc m))
       (x_test c) (y_test c) = Inr a4"
    by auto
  let ?s1 = "\<lparr>weights = weights_at c (Suc m), weights_last = last_at c (Suc m),
                opt_state = snd (params_at c (Suc m)),
                train_cost_epochs = train_cost_epochs s @ [a1],
                test_cost_epochs = test_cost_epochs s @ [a3],
                train_acc_epochs = train_acc_epochs s @ [a2],
                test_acc_epochs = test_acc_epochs s @ [a4]\<rparr>"
  have e: "epoch c s = Inr ?s1"
    by (rule epoch_step [OF Cons.prems(1) a1 a2 a3 a4])
  have s1: "((weights ?s1, weights_last ?s1), opt_state ?s1) = params_at c (Suc m)"
    by (simp add: weights_at_def last_at_def)
  have "\<exists>s'. train_loop c js ?s1 = Inr s' \<and>
           ((weights s', weights_last s'), opt_state s') = params_at c (Suc m + length js) \<and>
           map Inr (train_cost_epochs s') = map Inr (train_cost_epochs ?s1) @
             map (\<lambda>k. compute_cost (device c) (weights_at c k) (last_at c k)
                         (x_train c) (y_train c)) [Suc m..<Suc m + length js] \<and>
           map Inr (train_acc_epochs s') = map Inr (train_acc_epochs ?s1) @
             map (\<lambda>k. compute_accuracy (device c) (weights_at c (Suc k)) (last_at c (Suc k))
                         (x_train c) (y_train c)) [Suc m..<Suc m + length js] \<and>
           map Inr (test_cost_epochs s') = map Inr (test_cost_epochs ?s1) @
             map (\<lambda>k. compute_cost (device c) (weights_at c (Suc k)) (last_at c (Suc k))
                         (x_test c) (y_test c)) [Suc m..<Suc m + length js] \<and>
           map Inr (test_acc_epochs s') = map Inr (test_acc_epochs ?s1) @
             map (\<lambda>k. compute_accuracy (device c) (weights_at c (Suc k)) (last_at c (Suc k))
                         (x_test c) (y_test c)) [Suc m..<Suc m + length js]"
  proof (rule Cons.IH [OF s1])
    fix k assume "k \<le> Suc m + length js"
    then have k: "k \<le> m + length (j # js)" by simp
    show "\<exists>a. compute_cost (device c) (weights_at c k) (last_at c k) (x_train c) (y_train c) = Inr a"
      by (rule Cons.prems(2) [OF k])
    show "\<exists>a. compute_accuracy (device c) (weights_at c k) (last_at c k) (x_train c) (y_train c) = Inr a"
      by (rule Cons.prems(3) [OF k])
    show "\<exists>a. compute_cost (device c) (weights_at c k) (last_at c k) (x_test c) (y_test c) = Inr a"
      by (rule Cons.prems(4) [OF k])
    show "\<exists>a. compute_accuracy (device c) (weights_at c k) (last_at c k) (x_test c) (y_test c) = Inr a"
      by (rule Cons.prems(5) [OF k])
  qed
  then obtain s' where s': "train_loop c js ?s1 = Inr s'"
    "((weights s', weights_last s'), opt_state s') = params_at c (Suc m + length js)"
    "map Inr (train_cost_epochs s') = map Inr (train_cost_epochs ?s1) @
             map (\<lambda>k. compute_cost (device c) (weights_at c k) (last_at c k)
                         (x_train c) (y_train c)) [Suc m..<Suc m + length js]"
    "map Inr (train_acc_epochs s') = map Inr (train_acc_epochs ?s1) @
             map (\<lambda>k. compute_accuracy (device c) (weights_at c (Suc k)) (last_at c (Suc k))
                         (x_train c) (y_train c)) [Suc m..<Suc m + length js]"
    "map Inr (test_cost_epochs s') = map Inr (test_cost_epochs ?s1) @
             map (\<lambda>k. compute_cost (device c) (weights_at c (Suc k)) (last_at c (Suc k))
                         (x_test c) (y_test c)) [Suc m..<Suc m + length js]"
    "map Inr (test_acc_epochs s') = map Inr (test_acc_epochs ?s1) @
             map (\<lambda>k. compute_accuracy (device c) (weights_at c (Suc k)) (last_at c (Suc k))
                         (x_test c) (y_test c)) [Suc m..<Suc m + length js]"
    by blast
  have upt: "[m..<m + length (j # js)] = m # [Suc m..<Suc m + length js]"
    by (subst upt_conv_Cons) simp_all
  have "train_loop c (j # js) s = Inr s'"
    by (simp only: train_loop.simps e sum.case s'(1))
  moreover have "((weights s', weights_last s'), opt_state s') = params_at c (m + length (j # js))"
    using s'(2) by simp
  moreover note s'(3-6)
  ultimately show ?case
    unfolding upt by (intro exI [of _ s']) (simp add: a1 a2 a3 a4)
qed

lemma map_Inr_length:
  assumes "map Inr xs = map f [0..<n]"
  shows "length xs = n"
  using assms by (metis length_map length_upt diff_zero)

lemma map_Inr_nth:
  assumes "map Inr xs = map f [0..<n]" and "k < n"
  shows "f k = Inr (xs ! k)"
proof -
  from assms have "map Inr xs ! k = Inr (xs ! k)"
    by (simp add: map_Inr_length [OF assms(1)])
  moreover from assms(2) have "map f [0..<n] ! k = f k" by simp
  ultimately show ?thesis using assms(1) by metis
qed

lemma train_qcnn_closed:
  assumes valid: "\<And>k. k \<le> n_epochs \<Longrightarrow> valid_weights (weights_at c k) (last_at c k)"
    and "length (x_train c) = length (y_train c)" and "length (x_test c) = length (y_test c)"
    and "\<forall>y \<in> set (y_train c). y < 2" and "\<forall>y \<in> set (y_test c). y < 2"
    and "\<And>ops. length (device c ops) = 2"
  shows "\<exists>s r. train_loop c [0..<n_epochs] (initial_state c) = Inr s \<and>
           ((weights s, weights_last s), opt_state s) = params_at c n_epochs \<and>
           train_qcnn c n_tr n_epochs = Inr r \<and>
           n_train r = replicate n_epochs n_tr \<and>
           step r = [1..<n_epochs + 1] \<and>
           map Inr (train_cost r) =
             map (\<lambda>k. compute_cost (device c) (weights_at c k) (last_at c k)
                         (x_train c) (y_train c)) [0..<n_epochs] \<and>
           map Inr (train_acc r) =
             map (\<lambda>k. compute_accuracy (device c) (weights_at c (Suc k)) (last_at c (Suc k))
                         (x_train c) (y_train c)) [0..<n_epochs] \<and>
           map Inr (test_cost r) =
             map (\<lambda>k. compute_cost (device c) (weights_at c (Suc k)) (last_at c (Suc k))
                         (x_test c) (y_test c)) [0..<n_epochs] \<and>
           map Inr (test_acc r) =
             map (\<lambda>k. compute_accuracy (device c) (weights_at c (Suc k)) (last_at c (Suc k))
                         (x_test c) (y_test c)) [0..<n_epochs]"
proof -
  have start: "((weights (initial_state c), weights_last (initial_state c)),
                 opt_state (initial_state c)) = params_at c 0"
    by (simp add: initial_state_def)
  have "\<exists>s'. train_loop c [0..<n_epochs] (initial_state c) = Inr s' \<and>
           ((weights s', weights_last s'), opt_state s') = params_at c (0 + length [0..<n_epochs]) \<and>
           map Inr (train_cost_epochs s') = map Inr (train_cost_epochs (initial_state c)) @
             map (\<lambda>k. compute_cost (device c) (weights_at c k) (last_at c k)
                         (x_train c) (y_train c)) [0..<0 + length [0..<n_epochs]] \<and>
           map Inr (train_acc_epochs s') = map Inr (train_acc_epochs (initial_state c)) @
             map (\<lambda>k. compute_accuracy (device c) (weights_at c (Suc k)) (last_at c (Suc k))
                         (x_train c) (y_train c)) [0..<0 + length [0..<n_epochs]] \<and>
           map Inr (test_cost_epochs s') = map Inr (test_cost_epochs (initial_state c)) @
             map (\<lambda>k. compute_cost (device c) (weights_at c (Suc k)) (last_at c (Suc k))
                         (x_test c) (y_test c)) [0..<0 + length [0..<n_epochs]] \<and>
           map Inr (test_acc_epochs s') = map Inr (test_acc_epochs (initial_state c)) @
             map (\<lambda>k. compute_accuracy (device c) (weights_at c (Suc k)) (last_at c (Suc k))
                         (x_test c) (y_test c)) [0..<0 + length [0..<n_epochs]]"
  proof (rule train_loop_from [OF start])
    fix k assume "k \<le> 0 + length [0..<n_epochs]"
    then have v: "valid_weights (weights_at c k) (last_at c k)"
      by (intro valid) simp
    show "\<exists>a. compute_cost (device c) (weights_at c k) (last_at c k) (x_train c) (y_train c) = Inr a"
      by (rule evaluation_succeeds(1) [OF v assms(2) assms(4) assms(6)])
    show "\<exists>a. compute_accuracy (device c) (weights_at c k) (last_at c k) (x_train c) (y_train c) = Inr a"
      by (rule evaluation_succeeds(2) [OF v assms(2) assms(4) assms(6)])
    show "\<exists>a. compute_cost (device c) (weights_at c k) (last_at c k) (x_test c) (y_test c) = Inr a"
      by (rule evaluation_succeeds(1) [OF v assms(3) assms(5) assms(6)])
    show "\<exists>a. compute_accuracy (device c) (weights_at c k) (last_at c k) (x_test c) (y_test c) = Inr a"
      by (rule evaluation_succeeds(2) [OF v assms(3) assms(5) assms(6)])
  qed
  then obtain s where s: "train_loop c [0..<n_epochs] (initial_state c) = Inr s"
    "((weights s, weights_last s), opt_state s) = params_at c n_epochs"
    "map Inr (train_cost_epochs s) =
       map (\<lambda>k. compute_cost (device c) (weights_at c k) (last_at c k)
                         (x_train c) (y_train c)) [0..<n_epochs]"
    "map Inr (train_acc_epochs s) =
       map (\<lambda>k. compute_accuracy (device c) (weights_at c (Suc k)) (last_at c (Suc k))
                         (x_train c) (y_train c)) [0..<n_epochs]"
    "map Inr (test_cost_epochs s) =
       map (\<lambda>k. compute_cost (device c) (weights_at c (Suc k)) (last_at c (Suc k))
                         (x_test c) (y_test c)) [0..<n_epochs]"
    "map Inr (test_acc_epochs s) =
       map (\<lambda>k. compute_accuracy (device c) (weights_at c (Suc k)) (last_at c (Suc k))
                         (x_test c) (y_test c)) [0..<n_epochs]"
    by (auto simp: initial_state_def)
  let ?r = "\<lparr>n_train = replicate n_epochs n_tr, step = [1..<n_epochs + 1],
             train_cost = train_cost_epochs s, train_acc = train_acc_epochs s,
             test_cost = test_cost_epochs s, test_acc = test_acc_epochs s\<rparr>"
  have "train_qcnn c n_tr n_epochs = Inr ?r"
    by (simp add: train_qcnn_def s(1))
  with s show ?thesis
    by (intro exI [of _ s] exI [of _ ?r]) simp
qed

lemma weighted_device_length: "length (weighted_device ops) = 2"
  by (simp add: weighted_device_def split: list.splits operation.splits)

lemma weighted_device_net:
  "weighted_device (net_ops ((t # col) # W) WL (a # x)) = [a / t, 1 - a / t]"
proof -
  have r: "rounds_ops ((t # col) # W) =
      round_ops (t # col) (active_wires 0) @
      concat (map (\<lambda>j. round_ops (((t # col) # W) ! j) (active_wires j)) [Suc 0..<Suc (length W)])"
    by (simp add: rounds_ops_def upt_conv_Cons del: upt_Suc)
  have c: "conv_ops (take 15 (t # col)) (active_wires 0) True =
      U3 t (take 15 (t # col) ! 1) (take 15 (t # col) ! 2) 0 #
      tl (conv_ops (take 15 (t # col)) (active_wires 0) True)"
    by (simp add: conv_ops_def pair_ops_def active_wires_values upt_conv_Cons)
  show ?thesis
    unfolding net_ops_def r round_ops_def
    by (subst c) (simp add: weighted_device_def)
qed

lemma example_params:
  "params_at example_run 0 = (([replicate 18 1, replicate 18 2], replicate 15 3), 0)"
  "params_at example_run (Suc 0) = (([replicate 18 2, replicate 18 3], replicate 15 4), 1)"
  "params_at example_run (Suc (Suc 0)) = (([replicate 18 3, replicate 18 4], replicate 15 5), 2)"
  by (simp_all add: example_run_def example_update_def)

lemma compute_values:
  assumes "valid_weights W WL" and "length X = length Y"
    and "\<forall>i < length X. Y ! i < length (dev (net_ops W WL (X ! i)))"
  shows "compute_cost dev W WL X Y =
           Inr (one_minus (fdiv (sum_list (map (selected dev W WL X Y) [0..<length X])) (length Y)))"
    and "compute_accuracy dev W WL X Y =
           Inr (fdiv (real (length (filter (\<lambda>p. p > 1 / 2)
                  (map (selected dev W WL X Y) [0..<length X])))) (length X))"
  by (simp_all only: compute_cost_def compute_accuracy_def compute_out_selected [OF assms]
      sum.case length_map length_upt diff_zero)

lemma example_values:
  assumes v: "valid_weights (c1 # W) WL"
  shows "compute_cost weighted_device (c1 # W) WL [[a], [b]] [0, 1] =
           Inr (Num (1 - (a / c1 ! 0 + (1 - b / c1 ! 0)) / 2))"
    and "compute_accuracy weighted_device (c1 # W) WL [[a], [b]] [0, 1] =
           Inr (Num (real (length (filter (\<lambda>p. p > 1 / 2) [a / c1 ! 0, 1 - b / c1 ! 0])) / 2))"
    and "compute_cost weighted_device (c1 # W) WL [[a]] [0] = Inr (Num (1 - a / c1 ! 0))"
    and "compute_accuracy weighted_device (c1 # W) WL [[a]] [0] =
           Inr (Num (real (length (filter (\<lambda>p. p > 1 / 2) [a / c1 ! 0]))))"
proof -
  from v have "length c1 = 18" by (simp add: valid_weights_def)
  then obtain t col where c1: "c1 = t # col" by (cases c1) auto
  note assms = v [unfolded c1]
  show "compute_cost weighted_device (c1 # W) WL [[a], [b]] [0, 1] =
           Inr (Num (1 - (a / c1 ! 0 + (1 - b / c1 ! 0)) / 2))"
    and "compute_accuracy weighted_device (c1 # W) WL [[a], [b]] [0, 1] =
           Inr (Num (real (length (filter (\<lambda>p. p > 1 / 2) [a / c1 ! 0, 1 - b / c1 ! 0])) / 2))"
    and "compute_cost weighted_device (c1 # W) WL [[a]] [0] = Inr (Num (1 - a / c1 ! 0))"
    and "compute_accuracy weighted_device (c1 # W) WL [[a]] [0] =
           Inr (Num (real (length (filter (\<lambda>p. p > 1 / 2) [a / c1 ! 0]))))"
    unfolding c1 nth_Cons_0
  proof -
  have two: "\<forall>i < length [[a], [b]].
      [0, 1] ! i < length (weighted_device (net_ops ((t # col) # W) WL ([[a], [b]] ! i)))"
    by (simp add: weighted_device_length less_Suc_eq)
  have one: "\<forall>i < length [[a]].
      [0] ! i < length (weighted_device (net_ops ((t # col) # W) WL ([[a]] ! i)))"
    by (simp add: weighted_device_length)
  have u2: "[0..<length [[a], [b]]] = [0, 1]" and u1: "[0..<length [[a]]] = [0]"
    by (simp_all add: upt_conv_Cons)
  have l2: "length [[a], [b]] = length [0, 1::nat]" and l1: "length [[a]] = length [0::nat]"
    by simp_all
  note v2 = compute_values [OF assms l2 two]
  note v1 = compute_values [OF assms l1 one]
  show "compute_cost weighted_device ((t # col) # W) WL [[a], [b]] [0, 1] =
           Inr (Num (1 - (a / t + (1 - b / t)) / 2))"
    unfolding v2(1) u2
    by (simp add: selected_def weighted_device_net fdiv_def)
  show "compute_accuracy weighted_device ((t # col) # W) WL [[a], [b]] [0, 1] =
           Inr (Num (real (length (filter (\<lambda>p. p > 1 / 2) [a / t, 1 - b / t])) / 2))"
    unfolding v2(2) u2
    by (simp add: selected_def weighted_device_net fdiv_def)
  show "compute_cost weighted_device ((t # col) # W) WL [[a]] [0] = Inr (Num (1 - a / t))"
    unfolding v1(1) u1
    by (simp add: selected_def weighted_device_net fdiv_def)
  show "compute_accuracy weighted_device ((t # col) # W) WL [[a]] [0] =
           Inr (Num (real (length (filter (\<lambda>p. p > 1 / 2) [a / t]))))"
    unfolding v1(2) u1
    by (simp add: selected_def weighted_device_net fdiv_def)
qed
qed

lemma example_at:
  "weights_at example_run 0 = [replicate 18 1, replicate 18 2]"
  "last_at example_run 0 = replicate 15 3"
  "weights_at example_run (Suc 0) = [replicate 18 2, replicate 18 3]"
  "last_at example_run (Suc 0) = replicate 15 4"
  "weights_at example_run (Suc (Suc 0)) = [replicate 18 3, replicate 18 4]"
  "last_at example_run (Suc (Suc 0)) = replicate 15 5"
  by (simp_all only: weights_at_def last_at_def example_params fst_conv snd_conv)

lemma example_valid:
  assumes "k \<le> 2"
  shows "valid_weights (weights_at example_run k) (last_at example_run k)"
proof -
  from assms have "k = 0 \<or> k = Suc 0 \<or> k = Suc (Suc 0)" by auto
  then show ?thesis
    by (auto simp: example_at valid_weights_def active_wires_Suc)
qed

lemma example_data:
  "device example_run = weighted_device"
  "x_train example_run = [[1 / 4], [3 / 4]]" "y_train example_run = [0, 1]"
  "x_test example_run = [[1 / 2]]" "y_test example_run = [0]"
  by (simp_all add: example_run_def)

lemma example_metrics:
  "compute_cost (device example_run) (weights_at example_run 0) (last_at example_run 0)
     (x_train example_run) (y_train example_run) = Inr (Num (3 / 4))"
  "compute_cost (device example_run) (weights_at example_run (Suc 0)) (last_at example_run (Suc 0))
     (x_train example_run) (y_train example_run) = Inr (Num (5 / 8))"
  "compute_accuracy (device example_run) (weights_at example_run (Suc 0))
     (last_at example_run (Suc 0)) (x_train example_run) (y_train example_run) = Inr (Num (1 / 2))"
  "compute_accuracy (device example_run) (weights_at example_run (Suc (Suc 0)))
     (last_at example_run (Suc (Suc 0))) (x_train example_run) (y_train example_run) =
       Inr (Num (1 / 2))"
  "compute_cost (device example_run) (weights_at example_run (Suc 0)) (last_at example_run (Suc 0))
     (x_test example_run) (y_test example_run) = Inr (Num (3 / 4))"
  "compute_cost (device example_run) (weights_at example_run (Suc (Suc 0)))
     (last_at example_run (Suc (Suc 0))) (x_test example_run) (y_test example_run) =
       Inr (Num (5 / 6))"
  "compute_accuracy (device example_run) (weights_at example_run (Suc 0))
     (last_at example_run (Suc 0)) (x_test example_run) (y_test example_run) = Inr (Num 0)"
  "compute_accuracy (device example_run) (weights_at example_run (Suc (Suc 0)))
     (last_at example_run (Suc (Suc 0))) (x_test example_run) (y_test example_run) = Inr (Num 0)"
proof -
  have v: "valid_weights [replicate 18 1, replicate 18 2] (replicate 15 3)"
    "valid_weights [replicate 18 2, replicate 18 3] (replicate 15 4)"
    "valid_weights [replicate 18 3, replicate 18 4] (replicate 15 5)"
    using example_valid [of 0] example_valid [of "Suc 0"] example_valid [of "Suc (Suc 0)"]
    by (simp_all add: example_at)
  note ev = example_values [OF v(1)] example_values [OF v(2)] example_values [OF v(3)]
  show
  "compute_cost (device example_run) (weights_at example_run 0) (last_at example_run 0)
     (x_train example_run) (y_train example_run) = Inr (Num (3 / 4))"
  "compute_cost (device example_run) (weights_at example_run (Suc 0)) (last_at example_run (Suc 0))
     (x_train example_run) (y_train example_run) = Inr (Num (5 / 8))"
  "compute_accuracy (device example_run) (weights_at example_run (Suc 0))
     (last_at example_run (Suc 0)) (x_train example_run) (y_train example_run) = Inr (Num (1 / 2))"
  "compute_accuracy (device example_run) (weights_at example_run (Suc (Suc 0)))
     (last_at example_run (Suc (Suc 0))) (x_train example_run) (y_train example_run) =
       Inr (Num (1 / 2))"
  "compute_cost (device example_run) (weights_at example_run (Suc 0)) (last_at example_run (Suc 0))
     (x_test example_run) (y_test example_run) = Inr (Num (3 / 4))"
  "compute_cost (device example_run) (weights_at example_run (Suc (Suc 0)))
     (last_at example_run (Suc (Suc 0))) (x_test example_run) (y_test example_run) =
       Inr (Num (5 / 6))"
  "compute_accuracy (device example_run) (weights_at example_run (Suc 0))
     (last_at example_run (Suc 0)) (x_test example_run) (y_test example_run) = Inr (Num 0)"
  "compute_accuracy (device example_run) (weights_at example_run (Suc (Suc 0)))
     (last_at example_run (Suc (Suc 0))) (x_test example_run) (y_test example_run) = Inr (Num 0)"
    unfolding example_at example_data ev by simp_all
qed

lemma list2: "length xs = 2 \<Longrightarrow> xs = [xs ! 0, xs ! Suc 0]"
  by (auto simp: numeral_2_eq_2 length_Suc_conv)

lemma train_loop_snoc:
  "train_loop c (js @ [j]) s =
     (case train_loop c js s of Inl e \<Rightarrow> Inl e | Inr s' \<Rightarrow> epoch c s')"
  by (induction js arbitrary: s) (simp_all split: sum.splits)

lemma train_loop_prefix:
  assumes valid: "\<And>k. k \<le> n_epochs \<Longrightarrow> valid_weights (weights_at c k) (last_at c k)"
    and "length (x_train c) = length (y_train c)" and "length (x_test c) = length (y_test c)"
    and "\<forall>y \<in> set (y_train c). y < 2" and "\<forall>y \<in> set (y_test c). y < 2"
    and "\<And>ops. length (device c ops) = 2"
    and "k \<le> n_epochs"
  shows "\<exists>s. train_loop c [0..<k] (initial_state c) = Inr s \<and>
           ((weights s, weights_last s), opt_state s) = params_at c k"
proof -
  have "\<And>j. j \<le> k \<Longrightarrow> valid_weights (weights_at c j) (last_at c j)"
    using assms(7) by (intro valid) simp
  from train_qcnn_closed [where n_epochs = k and n_tr = 0, OF this assms(2-6)]
  show ?thesis by blast
qed

lemma example_cost_data:
  "device example_run_cost = weighted_device"
  "x_train example_run_cost = [[1 / 4], [3 / 4]]" "y_train example_run_cost = [0, 1]"
  "x_test example_run_cost = [[1 / 2]]" "y_test example_run_cost = [0]"
  "init_weights example_run_cost = ([replicate 18 1, replicate 18 2], replicate 15 3)"
  "optimizer example_run_cost = 0" "update example_run_cost = cost_update"
  by (simp_all add: example_run_cost_def example_run_def)

lemma example_cost_params:
  "params_at example_run_cost 0 = (([replicate 18 1, replicate 18 2], replicate 15 3), 0)"
  "params_at example_run_cost (Suc 0) =
     (([replicate 18 (7 / 4), replicate 18 (11 / 4)], replicate 15 (15 / 4)), 1)"
proof -
  show p0: "params_at example_run_cost 0 = (([replicate 18 1, replicate 18 2], replicate 15 3), 0)"
    by (simp add: example_cost_data)
  have c: "compute_cost weighted_device [replicate 18 1, replicate 18 2] (replicate 15 3)
      [[1 / 4], [3 / 4]] [0, 1] = Inr (Num (3 / 4))"
    unfolding example_values(1) [OF example_weights_valid] by simp
  show "params_at example_run_cost (Suc 0) =
     (([replicate 18 (7 / 4), replicate 18 (11 / 4)], replicate 15 (15 / 4)), 1)"
    unfolding params_at.simps(2) p0 example_cost_data fst_conv snd_conv cost_update_def
      prod.case c
    by simp
qed

lemma example_cost_valid:
  assumes "k \<le> 1"
  shows "valid_weights (weights_at example_run_cost k) (last_at example_run_cost k)"
proof -
  from assms have "k = 0 \<or> k = Suc 0" by auto
  then show ?thesis
    unfolding weights_at_def last_at_def
    by (auto simp only: example_cost_params fst_conv snd_conv)
       (simp_all add: valid_weights_def active_wires_Suc)
qed

text \<open>
  Claim C6. Let the weights keep a shape the network accepts through \<open>n_epochs\<close>
  updates, let both batches have one label in \<open>{0, 1}\<close> per feature vector, and let the
  device answer with two probabilities. Then the loop runs through all of
  \<^verbatim>\<open>range(n_epochs)\<close> without stopping early, and the returned steps are
  \<open>1, \<dots>, n_epochs\<close>. Epoch \<open>k + 1\<close> takes the state \<open>s0\<close> that \<open>k\<close> epochs have
  reached to a state \<open>s1\<close> by exactly one call of the optimizer: both weight tensors and
  the optimizer's state of \<open>s1\<close> are what the update rule gives for \<open>s0\<close> with the
  function \<^verbatim>\<open>compute_cost\<close> on the training batch as its objective. The train accuracy,
  the test cost and the test accuracy that the epoch records are computed with the
  weights of \<open>s1\<close>, and the epoch appends one entry to each list of metrics.
\<close>

theorem train_qcnn_fixed_epochs:
  assumes "\<And>k. k \<le> n_epochs \<Longrightarrow> valid_weights (weights_at c k) (last_at c k)"
    and "length (x_train c) = length (y_train c)" and "length (x_test c) = length (y_test c)"
    and "\<forall>y \<in> set (y_train c). y < 2" and "\<forall>y \<in> set (y_test c). y < 2"
    and "\<And>ops. length (device c ops) = 2"
  shows "\<exists>s r. train_loop c [0..<n_epochs] (initial_state c) = Inr s \<and>
           ((weights s, weights_last s), opt_state s) = params_at c n_epochs \<and>
           train_qcnn c n_tr n_epochs = Inr r \<and>
           step r = map Suc [0..<n_epochs] \<and>
           n_train r = replicate n_epochs n_tr \<and>
           length (train_cost r) = n_epochs \<and> length (train_acc r) = n_epochs \<and>
           length (test_cost r) = n_epochs \<and> length (test_acc r) = n_epochs \<and>
           (\<forall>k < n_epochs. \<exists>s0 s1.
              train_loop c [0..<k] (initial_state c) = Inr s0 \<and>
              epoch c s0 = Inr s1 \<and>
              train_loop c [0..<Suc k] (initial_state c) = Inr s1 \<and>
              ((weights s1, weights_last s1), opt_state s1) =
                update c (opt_state s0)
                  (\<lambda>(w, wl). compute_cost (device c) w wl (x_train c) (y_train c))
                  (weights s0, weights_last s0) \<and>
              step_and_cost (update c) (opt_state s0)
                  (\<lambda>(w, wl). compute_cost (device c) w wl (x_train c) (y_train c))
                  (weights s0, weights_last s0) =
                Inr (((weights s1, weights_last s1), opt_state s1), train_cost r ! k) \<and>
              length (train_cost_epochs s1) = Suc k \<and> length (train_acc_epochs s1) = Suc k \<and>
              length (test_cost_epochs s1) = Suc k \<and> length (test_acc_epochs s1) = Suc k \<and>
              compute_accuracy (device c) (weights s1) (weights_last s1)
                (x_train c) (y_train c) = Inr (train_acc r ! k) \<and>
              compute_cost (device c) (weights s1) (weights_last s1)
                (x_test c) (y_test c) = Inr (test_cost r ! k) \<and>
              compute_accuracy (device c) (weights s1) (weights_last s1)
                (x_test c) (y_test c) = Inr (test_acc r ! k))"
proof -
  from train_qcnn_closed [where n_tr = n_tr, OF assms] obtain s r where
    s: "train_loop c [0..<n_epochs] (initial_state c) = Inr s"
       "((weights s, weights_last s), opt_state s) = params_at c n_epochs"
    and r: "train_qcnn c n_tr n_epochs = Inr r" "n_train r = replicate n_epochs n_tr"
       "step r = [1..<n_epochs + 1]"
    and tc: "map Inr (train_cost r) =
             map (\<lambda>k. compute_cost (device c) (weights_at c k) (last_at c k)
                         (x_train c) (y_train c)) [0..<n_epochs]"
    and ta: "map Inr (train_acc r) =
             map (\<lambda>k. compute_accuracy (device c) (weights_at c (Suc k)) (last_at c (Suc k))
                         (x_train c) (y_train c)) [0..<n_epochs]"
    and tec: "map Inr (test_cost r) =
             map (\<lambda>k. compute_cost (device c) (weights_at c (Suc k)) (last_at c (Suc k))
                         (x_test c) (y_test c)) [0..<n_epochs]"
    and tea: "map Inr (test_acc r) =
             map (\<lambda>k. compute_accuracy (device c) (weights_at c (Suc k)) (last_at c (Suc k))
                         (x_test c) (y_test c)) [0..<n_epochs]"
    by blast
  have steps: "step r = map Suc [0..<n_epochs]"
    by (simp add: r(3) map_Suc_upt)
  have lens: "length (train_cost r) = n_epochs" "length (train_acc r) = n_epochs"
    "length (test_cost r) = n_epochs" "length (test_acc r) = n_epochs"
    by (rule map_Inr_length [OF tc], rule map_Inr_length [OF ta],
        rule map_Inr_length [OF tec], rule map_Inr_length [OF tea])
  have each: "\<exists>s0 s1.
              train_loop c [0..<k] (initial_state c) = Inr s0 \<and>
              epoch c s0 = Inr s1 \<and>
              train_loop c [0..<Suc k] (initial_state c) = Inr s1 \<and>
              ((weights s1, weights_last s1), opt_state s1) =
                update c (opt_state s0)
                  (\<lambda>(w, wl). compute_cost (device c) w wl (x_train c) (y_train c))
                  (weights s0, weights_last s0) \<and>
              step_and_cost (update c) (opt_state s0)
                  (\<lambda>(w, wl). compute_cost (device c) w wl (x_train c) (y_train c))
                  (weights s0, weights_last s0) =
                Inr (((weights s1, weights_last s1), opt_state s1), train_cost r ! k) \<and>
              length (train_cost_epochs s1) = Suc k \<and> length (train_acc_epochs s1) = Suc k \<and>
              length (test_cost_epochs s1) = Suc k \<and> length (test_acc_epochs s1) = Suc k \<and>
              compute_accuracy (device c) (weights s1) (weights_last s1)
                (x_train c) (y_train c) = Inr (train_acc r ! k) \<and>
              compute_cost (device c) (weights s1) (weights_last s1)
                (x_test c) (y_test c) = Inr (test_cost r ! k) \<and>
              compute_accuracy (device c) (weights s1) (weights_last s1)
                (x_test c) (y_test c) = Inr (test_acc r ! k)" if k: "k < n_epochs" for k
  proof -
    from k have k0: "k \<le> n_epochs" and k1: "Suc k \<le> n_epochs" by simp_all
    have v1: "\<And>j. j \<le> Suc k \<Longrightarrow> valid_weights (weights_at c j) (last_at c j)"
      using k1 by (intro assms(1)) simp
    from train_loop_prefix [OF assms k0] obtain s0 where
      s0: "train_loop c [0..<k] (initial_state c) = Inr s0"
        "((weights s0, weights_last s0), opt_state s0) = params_at c k"
      by blast
    from train_qcnn_closed [where n_epochs = "Suc k" and n_tr = 0, OF v1 assms(2-6)]
    obtain s1 r1 where
      s1: "train_loop c [0..<Suc k] (initial_state c) = Inr s1"
        "((weights s1, weights_last s1), opt_state s1) = params_at c (Suc k)"
      and r1: "train_qcnn c 0 (Suc k) = Inr r1"
      and l1: "map Inr (train_cost r1) =
             map (\<lambda>k. compute_cost (device c) (weights_at c k) (last_at c k)
                         (x_train c) (y_train c)) [0..<Suc k]"
          "map Inr (train_acc r1) =
             map (\<lambda>k. compute_accuracy (device c) (weights_at c (Suc k)) (last_at c (Suc k))
                         (x_train c) (y_train c)) [0..<Suc k]"
          "map Inr (test_cost r1) =
             map (\<lambda>k. compute_cost (device c) (weights_at c (Suc k)) (last_at c (Suc k))
                         (x_test c) (y_test c)) [0..<Suc k]"
          "map Inr (test_acc r1) =
             map (\<lambda>k. compute_accuracy (device c) (weights_at c (Suc k)) (last_at c (Suc k))
                         (x_test c) (y_test c)) [0..<Suc k]"
      by blast
    from r1 s1(1) have fields: "train_cost r1 = train_cost_epochs s1"
      "train_acc r1 = train_acc_epochs s1" "test_cost r1 = test_cost_epochs s1"
      "test_acc r1 = test_acc_epochs s1"
      by (auto simp: train_qcnn_def)
    have lens1: "length (train_cost_epochs s1) = Suc k" "length (train_acc_epochs s1) = Suc k"
      "length (test_cost_epochs s1) = Suc k" "length (test_acc_epochs s1) = Suc k"
      using map_Inr_length [OF l1(1)] map_Inr_length [OF l1(2)] map_Inr_length [OF l1(3)]
        map_Inr_length [OF l1(4)]
      by (simp_all only: fields)
    have "[0..<Suc k] = [0..<k] @ [k]" by simp
    then have e: "epoch c s0 = Inr s1"
      using s1(1) s0(1) by (simp only: train_loop_snoc sum.case)
    from s0(2) have at0: "weights_at c k = weights s0" "last_at c k = weights_last s0"
      and o0: "snd (params_at c k) = opt_state s0"
      and f0: "fst (params_at c k) = (weights s0, weights_last s0)"
      by (simp_all add: weights_at_def last_at_def flip: s0(2))
    from s1(2) have at1: "weights_at c (Suc k) = weights s1" "last_at c (Suc k) = weights_last s1"
      by (simp_all only: weights_at_def last_at_def fst_conv snd_conv flip: s1(2))
    have u: "((weights s1, weights_last s1), opt_state s1) =
                update c (opt_state s0)
                  (\<lambda>(w, wl). compute_cost (device c) w wl (x_train c) (y_train c))
                  (weights s0, weights_last s0)"
      by (simp only: s1(2) params_at.simps o0 f0)
    have c0: "compute_cost (device c) (weights s0) (weights_last s0) (x_train c) (y_train c) =
        Inr (train_cost r ! k)"
      using map_Inr_nth [OF tc k] by (simp only: at0)
    have sc: "step_and_cost (update c) (opt_state s0)
                  (\<lambda>(w, wl). compute_cost (device c) w wl (x_train c) (y_train c))
                  (weights s0, weights_last s0) =
                Inr (((weights s1, weights_last s1), opt_state s1), train_cost r ! k)"
      by (simp add: step_and_cost_def c0 u)
    have m: "compute_accuracy (device c) (weights s1) (weights_last s1)
                (x_train c) (y_train c) = Inr (train_acc r ! k)"
      "compute_cost (device c) (weights s1) (weights_last s1)
                (x_test c) (y_test c) = Inr (test_cost r ! k)"
      "compute_accuracy (device c) (weights s1) (weights_last s1)
                (x_test c) (y_test c) = Inr (test_acc r ! k)"
      using map_Inr_nth [OF ta k] map_Inr_nth [OF tec k] map_Inr_nth [OF tea k]
      by (simp_all only: at1)
    from s0(1) e s1(1) u sc lens1 m show ?thesis
      by (intro exI [of _ s0] exI [of _ s1] conjI)
  qed
  then have all: "\<forall>k < n_epochs. \<exists>s0 s1.
              train_loop c [0..<k] (initial_state c) = Inr s0 \<and>
              epoch c s0 = Inr s1 \<and>
              train_loop c [0..<Suc k] (initial_state c) = Inr s1 \<and>
              ((weights s1, weights_last s1), opt_state s1) =
                update c (opt_state s0)
                  (\<lambda>(w, wl). compute_cost (device c) w wl (x_train c) (y_train c))
                  (weights s0, weights_last s0) \<and>
              step_and_cost (update c) (opt_state s0)
                  (\<lambda>(w, wl). compute_cost (device c) w wl (x_train c) (y_train c))
                  (weights s0, weights_last s0) =
                Inr (((weights s1, weights_last s1), opt_state s1), train_cost r ! k) \<and>
              length (train_cost_epochs s1) = Suc k \<and> length (train_acc_epochs s1) = Suc k \<and>
              length (test_cost_epochs s1) = Suc k \<and> length (test_acc_epochs s1) = Suc k \<and>
              compute_accuracy (device c) (weights s1) (weights_last s1)
                (x_train c) (y_train c) = Inr (train_acc r ! k) \<and>
              compute_cost (device c) (weights s1) (weights_last s1)
                (x_test c) (y_test c) = Inr (test_cost r ! k) \<and>
              compute_accuracy (device c) (weights s1) (weights_last s1)
                (x_test c) (y_test c) = Inr (test_acc r ! k)"
    by blast
  from s(1) s(2) r(1) steps r(2) lens all show ?thesis
    by (intro exI [of _ s] exI [of _ r] conjI)
qed

text \<open>
  In the example the update rule moves every weight by the value of its objective. The
  cost of the training batch at the initial weights is 3/4, and after one epoch the
  weights 1, 2 and 3 have become 7/4, 11/4 and 15/4.
\<close>

theorem train_qcnn_fixed_epochs_witness:
  "\<exists>s r. train_loop example_run_cost [0..<1] (initial_state example_run_cost) = Inr s \<and>
         weights s = [replicate 18 (7 / 4), replicate 18 (11 / 4)] \<and>
         weights_last s = replicate 15 (15 / 4) \<and> opt_state s = 1 \<and>
         train_qcnn example_run_cost 40 1 = Inr r \<and> step r = [1] \<and> n_train r = [40] \<and>
         length (train_cost r) = 1 \<and> length (test_acc r) = 1"
proof -
  have d: "length (x_train example_run_cost) = length (y_train example_run_cost)"
    "length (x_test example_run_cost) = length (y_test example_run_cost)"
    "\<forall>y \<in> set (y_train example_run_cost). y < 2"
    "\<forall>y \<in> set (y_test example_run_cost). y < 2"
    "\<And>ops. length (device example_run_cost ops) = 2"
    by (simp_all add: example_cost_data weighted_device_length)
  from train_qcnn_fixed_epochs [where c = example_run_cost and n_epochs = 1 and n_tr = 40,
      OF example_cost_valid d]
  obtain s r where l: "train_loop example_run_cost [0..<1] (initial_state example_run_cost) = Inr s"
    and ps: "((weights s, weights_last s), opt_state s) = params_at example_run_cost 1"
    and r: "train_qcnn example_run_cost 40 1 = Inr r" "step r = map Suc [0..<1]"
    "n_train r = replicate 1 40" "length (train_cost r) = 1" "length (test_acc r) = 1"
    by blast
  have p1: "params_at example_run_cost 1 =
     (([replicate 18 (7 / 4), replicate 18 (11 / 4)], replicate 15 (15 / 4)), 1)"
    by (simp only: One_nat_def example_cost_params)
  from ps have w: "weights s = [replicate 18 (7 / 4), replicate 18 (11 / 4)]"
    "weights_last s = replicate 15 (15 / 4)" "opt_state s = 1"
    unfolding p1 by simp_all
  from r(2,3) have sr: "step r = [1]" "n_train r = [40]"
    by simp_all
  from l w r(1) sr r(4,5) show ?thesis
    by (intro exI [of _ s] exI [of _ r] conjI)
qed

text \<open>
  Claim C10. Under the same conditions, the \<^verbatim>\<open>train_cost\<close> recorded for an epoch is the
  second component of what \<^verbatim>\<open>step_and_cost\<close> returns in that epoch, which is the cost of
  the training batch at the weights before that epoch's update; the \<^verbatim>\<open>train_acc\<close>,
  \<^verbatim>\<open>test_cost\<close> and \<^verbatim>\<open>test_acc\<close> of the same record are computed at the weights after
  the update. In the example the training cost is 3/4 at the initial weights and 5/8
  after one update: the first record holds 3/4, and 5/8 is in the second.
\<close>

theorem train_cost_at_prior_weights:
  assumes "\<And>k. k \<le> n_epochs \<Longrightarrow> valid_weights (weights_at c k) (last_at c k)"
    and "length (x_train c) = length (y_train c)" and "length (x_test c) = length (y_test c)"
    and "\<forall>y \<in> set (y_train c). y < 2" and "\<forall>y \<in> set (y_test c). y < 2"
    and "\<And>ops. length (device c ops) = 2"
  shows "\<exists>r. train_qcnn c n_tr n_epochs = Inr r \<and>
           length (train_cost r) = n_epochs \<and> length (train_acc r) = n_epochs \<and>
           length (test_cost r) = n_epochs \<and> length (test_acc r) = n_epochs \<and>
           (\<forall>k < n_epochs.
              step_and_cost (update c) (snd (params_at c k)) (objective c)
                (weights_at c k, last_at c k) = Inr (params_at c (Suc k), train_cost r ! k) \<and>
              compute_cost (device c) (weights_at c k) (last_at c k)
                (x_train c) (y_train c) = Inr (train_cost r ! k) \<and>
              compute_accuracy (device c) (weights_at c (Suc k)) (last_at c (Suc k))
                (x_train c) (y_train c) = Inr (train_acc r ! k) \<and>
              compute_cost (device c) (weights_at c (Suc k)) (last_at c (Suc k))
                (x_test c) (y_test c) = Inr (test_cost r ! k) \<and>
              compute_accuracy (device c) (weights_at c (Suc k)) (last_at c (Suc k))
                (x_test c) (y_test c) = Inr (test_acc r ! k))"
proof -
  from train_qcnn_closed [where n_tr = n_tr, OF assms] obtain r where
    r: "train_qcnn c n_tr n_epochs = Inr r"
    and tc: "map Inr (train_cost r) =
             map (\<lambda>k. compute_cost (device c) (weights_at c k) (last_at c k)
                         (x_train c) (y_train c)) [0..<n_epochs]"
    and ta: "map Inr (train_acc r) =
             map (\<lambda>k. compute_accuracy (device c) (weights_at c (Suc k)) (last_at c (Suc k))
                         (x_train c) (y_train c)) [0..<n_epochs]"
    and tec: "map Inr (test_cost r) =
             map (\<lambda>k. compute_cost (device c) (weights_at c (Suc k)) (last_at c (Suc k))
                         (x_test c) (y_test c)) [0..<n_epochs]"
    and tea: "map Inr (test_acc r) =
             map (\<lambda>k. compute_accuracy (device c) (weights_at c (Suc k)) (last_at c (Suc k))
                         (x_test c) (y_test c)) [0..<n_epochs]"
    by blast
  have lens: "length (train_cost r) = n_epochs" "length (train_acc r) = n_epochs"
    "length (test_cost r) = n_epochs" "length (test_acc r) = n_epochs"
    by (rule map_Inr_length [OF tc], rule map_Inr_length [OF ta],
        rule map_Inr_length [OF tec], rule map_Inr_length [OF tea])
  have prior: "\<forall>k < n_epochs. compute_cost (device c) (weights_at c k) (last_at c k)
                (x_train c) (y_train c) = Inr (train_cost r ! k)"
    using map_Inr_nth [OF tc] by blast
  have opt: "\<forall>k < n_epochs. step_and_cost (update c) (snd (params_at c k)) (objective c)
                (weights_at c k, last_at c k) = Inr (params_at c (Suc k), train_cost r ! k)"
    using prior
    by (simp add: step_and_cost_def objective_def weights_at_def last_at_def case_prod_beta)
  have post: "\<forall>k < n_epochs.
              compute_accuracy (device c) (weights_at c (Suc k)) (last_at c (Suc k))
                (x_train c) (y_train c) = Inr (train_acc r ! k) \<and>
              compute_cost (device c) (weights_at c (Suc k)) (last_at c (Suc k))
                (x_test c) (y_test c) = Inr (test_cost r ! k) \<and>
              compute_accuracy (device c) (weights_at c (Suc k)) (last_at c (Suc k))
                (x_test c) (y_test c) = Inr (test_acc r ! k)"
    using map_Inr_nth [OF ta] map_Inr_nth [OF tec] map_Inr_nth [OF tea] by blast
  from prior opt post have all: "\<forall>k < n_epochs.
              step_and_cost (update c) (snd (params_at c k)) (objective c)
                (weights_at c k, last_at c k) = Inr (params_at c (Suc k), train_cost r ! k) \<and>
              compute_cost (device c) (weights_at c k) (last_at c k)
                (x_train c) (y_train c) = Inr (train_cost r ! k) \<and>
              compute_accuracy (device c) (weights_at c (Suc k)) (last_at c (Suc k))
                (x_train c) (y_train c) = Inr (train_acc r ! k) \<and>
              compute_cost (device c) (weights_at c (Suc k)) (last_at c (Suc k))
                (x_test c) (y_test c) = Inr (test_cost r ! k) \<and>
              compute_accuracy (device c) (weights_at c (Suc k)) (last_at c (Suc k))
                (x_test c) (y_test c) = Inr (test_acc r ! k)"
    by blast
  from r lens all show ?thesis
    by (intro exI [of _ r] conjI)
qed

theorem train_cost_at_prior_weights_witness:
  "\<exists>r. train_qcnn example_run 40 2 = Inr r \<and>
       train_cost r = [Num (3 / 4), Num (5 / 8)] \<and>
       train_acc r = [Num (1 / 2), Num (1 / 2)] \<and>
       test_cost r = [Num (3 / 4), Num (5 / 6)] \<and>
       test_acc r = [Num 0, Num 0]"
proof -
  have "\<exists>r. train_qcnn example_run 40 2 = Inr r \<and>
           length (train_cost r) = 2 \<and> length (train_acc r) = 2 \<and>
           length (test_cost r) = 2 \<and> length (test_acc r) = 2 \<and>
           (\<forall>k < 2.
              step_and_cost (update example_run) (snd (params_at example_run k))
                (objective example_run)
                (weights_at example_run k, last_at example_run k) =
                  Inr (params_at example_run (Suc k), train_cost r ! k) \<and>
              compute_cost (device example_run) (weights_at example_run k)
                (last_at example_run k)
                (x_train example_run) (y_train example_run) = Inr (train_cost r ! k) \<and>
              compute_accuracy (device example_run) (weights_at example_run (Suc k))
                (last_at example_run (Suc k))
                (x_train example_run) (y_train example_run) = Inr (train_acc r ! k) \<and>
              compute_cost (device example_run) (weights_at example_run (Suc k))
                (last_at example_run (Suc k))
                (x_test example_run) (y_test example_run) = Inr (test_cost r ! k) \<and>
              compute_accuracy (device example_run) (weights_at example_run (Suc k))
                (last_at example_run (Suc k))
                (x_test example_run) (y_test example_run) = Inr (test_acc r ! k))"
    by (rule train_cost_at_prior_weights)
       (simp_all add: example_valid example_data weighted_device_length)
  then obtain r where r: "train_qcnn example_run 40 2 = Inr r"
    and len: "length (train_cost r) = 2" "length (train_acc r) = 2"
      "length (test_cost r) = 2" "length (test_acc r) = 2"
    and each: "\<And>k. k < 2 \<Longrightarrow>
              compute_cost (device example_run) (weights_at example_run k)
                (last_at example_run k)
                (x_train example_run) (y_train example_run) = Inr (train_cost r ! k) \<and>
              compute_accuracy (device example_run) (weights_at example_run (Suc k))
                (last_at example_run (Suc k))
                (x_train example_run) (y_train example_run) = Inr (train_acc r ! k) \<and>
              compute_cost (device example_run) (weights_at example_run (Suc k))
                (last_at example_run (Suc k))
                (x_test example_run) (y_test example_run) = Inr (test_cost r ! k) \<and>
              compute_accuracy (device example_run) (weights_at example_run (Suc k))
                (last_at example_run (Suc k))
                (x_test example_run) (y_test example_run) = Inr (test_acc r ! k)"
    by blast
  from each [of 0] each [of "Suc 0"]
  have "train_cost r ! 0 = Num (3 / 4)" "train_cost r ! Suc 0 = Num (5 / 8)"
    "train_acc r ! 0 = Num (1 / 2)" "train_acc r ! Suc 0 = Num (1 / 2)"
    "test_cost r ! 0 = Num (3 / 4)" "test_cost r ! Suc 0 = Num (5 / 6)"
    "test_acc r ! 0 = Num 0" "test_acc r ! Suc 0 = Num 0"
    unfolding example_metrics sum.inject by auto
  with list2 [OF len(1)] list2 [OF len(2)] list2 [OF len(3)] list2 [OF len(4)] r
  show ?thesis by (intro exI [of _ r]) simp
qed

end
